theory Spec2Isabelle
  imports Main
begin

section \<open>Python values and exceptions\<close>

text \<open>
  The values that reach the option loader of \<^verbatim>\<open>pycheribuild/config/loader.py\<close>: what
  \<^verbatim>\<open>argparse\<close> stores in the namespace, what \<^verbatim>\<open>json.loads\<close> returns, and the defaults of
  the option declarations. A \<^verbatim>\<open>pathlib.Path\<close> is kept as its root (\<^verbatim>\<open>''\<close>, \<^verbatim>\<open>'/'\<close> or
  \<^verbatim>\<open>'//'\<close>) and its list of components, which is what path equality compares. An enum
  member is kept as the name of its class and its own name. JSON numbers are integers here.
  The characters of a string are code points below 256 and its letters are the ASCII
  letters; texts with other code points or other letters are outside the model.
\<close>

type_synonym ppath = "string \<times> string list"

datatype pyval =
    VNone
  | VBool bool
  | VInt int
  | VStr string
  | VList "pyval list"
  | VDict "(string \<times> pyval) list"
  | VPath ppath
  | VEnum string string

text \<open>The exceptions the loader can raise or let through; each carries what its message names.\<close>

datatype error =
    ValueError string
  | TypeError
  | AttributeError
  | AssertionError
  | SyntaxError string
  | FileNotFoundError ppath
  | JSONDecodeError
  | RecursionError
  | ArgumentTypeError string "string list"
  | SystemExit nat string pyval

section \<open>String helpers of the Python library\<close>

text \<open>
  The whitespace of \<^verbatim>\<open>str.strip\<close> and \<^verbatim>\<open>str.isspace\<close> among the code points below 256:
  the ASCII blanks, the four separators \<^verbatim>\<open>0x1C\<close> to \<^verbatim>\<open>0x1F\<close>, next line \<^verbatim>\<open>0x85\<close> and the
  no-break space \<^verbatim>\<open>0xA0\<close>.
\<close>

definition is_space :: "char \<Rightarrow> bool" where
  "is_space c \<longleftrightarrow> c \<in> set [CHR '' '', CHR 0x09, CHR 0x0A, CHR 0x0B, CHR 0x0C, CHR 0x0D,
                              CHR 0x1C, CHR 0x1D, CHR 0x1E, CHR 0x1F, CHR 0x85, CHR 0xA0]"

definition is_digit :: "char \<Rightarrow> bool" where
  "is_digit c \<longleftrightarrow> c \<in> set ''0123456789''"

definition is_alpha :: "char \<Rightarrow> bool" where
  "is_alpha c \<longleftrightarrow> c \<in> set ''abcdefghijklmnopqrstuvwxyzABCDEFGHIJKLMNOPQRSTUVWXYZ''"

definition lstrip :: "string \<Rightarrow> string" where
  "lstrip s = dropWhile is_space s"

definition strip :: "string \<Rightarrow> string" where
  "strip s = rev (dropWhile is_space (rev (dropWhile is_space s)))"

definition startswith :: "string \<Rightarrow> string \<Rightarrow> bool" where
  "startswith s p \<longleftrightarrow> take (length p) s = p"

definition to_upper :: "char \<Rightarrow> char" where
  "to_upper c = (case map_of (zip ''abcdefghijklmnopqrstuvwxyz'' ''ABCDEFGHIJKLMNOPQRSTUVWXYZ'') c of
                   Some u \<Rightarrow> u | None \<Rightarrow> c)"

definition to_lower :: "char \<Rightarrow> char" where
  "to_lower c = (case map_of (zip ''ABCDEFGHIJKLMNOPQRSTUVWXYZ'' ''abcdefghijklmnopqrstuvwxyz'') c of
                   Some u \<Rightarrow> u | None \<Rightarrow> c)"

definition upper :: "string \<Rightarrow> string" where
  "upper s = map to_upper s"

definition lower :: "string \<Rightarrow> string" where
  "lower s = map to_lower s"

definition replace_char :: "char \<Rightarrow> char \<Rightarrow> string \<Rightarrow> string" where
  "replace_char a b s = map (\<lambda>c. if c = a then b else c) s"

text \<open>\<^verbatim>\<open>s.split(sep=c)\<close>: never empty, one more piece than there are separators.\<close>

fun split_sep :: "char \<Rightarrow> string \<Rightarrow> string list" where
  "split_sep c [] = [[]]"
| "split_sep c (x # xs) =
     (if x = c then [] # split_sep c xs
      else (case split_sep c xs of [] \<Rightarrow> [[x]] | w # ws \<Rightarrow> (x # w) # ws))"

fun join_sep :: "char \<Rightarrow> string list \<Rightarrow> string" where
  "join_sep c [] = []"
| "join_sep c [w] = w"
| "join_sep c (w # ws) = w @ c # join_sep c ws"

text \<open>\<^verbatim>\<open>s.rfind("/")\<close>: the index of the last slash, or \<open>-1\<close>.\<close>

fun rfind_slash :: "string \<Rightarrow> int" where
  "rfind_slash [] = -1"
| "rfind_slash (x # xs) =
     (let r = rfind_slash xs in
      if r \<ge> 0 then r + 1 else if x = CHR ''/'' then 0 else -1)"

subsection \<open>\<^verbatim>\<open>int(str)\<close>\<close>

definition digit_val :: "char \<Rightarrow> int" where
  "digit_val c = int (of_char c) - 48"

text \<open>The digits after the first one: a single underscore may stand between two digits.\<close>

fun parse_digits :: "string \<Rightarrow> int \<Rightarrow> int option" where
  "parse_digits [] acc = Some acc"
| "parse_digits [c] acc = (if is_digit c then Some (10 * acc + digit_val c) else None)"
| "parse_digits (c # d # ds) acc =
     (if is_digit c then parse_digits (d # ds) (10 * acc + digit_val c)
      else if c = CHR ''_'' \<and> is_digit d then parse_digits ds (10 * acc + digit_val d)
      else None)"

definition parse_unsigned :: "string \<Rightarrow> int option" where
  "parse_unsigned s =
     (case s of [] \<Rightarrow> None
      | d # ds \<Rightarrow> if is_digit d then parse_digits ds (digit_val d) else None)"

text \<open>
  The whitespace that \<^verbatim>\<open>int(s)\<close> drops at both ends of a string is narrower than that of
  \<^verbatim>\<open>str.strip\<close>: the ASCII blanks, \<^verbatim>\<open>0x85\<close> and \<^verbatim>\<open>0xA0\<close>, but not \<^verbatim>\<open>0x1C\<close> to \<^verbatim>\<open>0x1F\<close>.
\<close>

definition is_int_space :: "char \<Rightarrow> bool" where
  "is_int_space c \<longleftrightarrow> c \<in> set [CHR '' '', CHR 0x09, CHR 0x0A, CHR 0x0B, CHR 0x0C, CHR 0x0D,
                                  CHR 0x85, CHR 0xA0]"

definition int_strip :: "string \<Rightarrow> string" where
  "int_strip s = rev (dropWhile is_int_space (rev (dropWhile is_int_space s)))"

text \<open>
  \<^verbatim>\<open>int(s)\<close> for a string, base 10, as Python 3.6 and later read it: surrounding whitespace
  is dropped, one sign is allowed, and the rest must be digits, with single underscores
  between them. The first argument is the interpreter's limit on the number of digits, as
  \<^verbatim>\<open>sys.get_int_max_str_digits()\<close> returns it: 4300 by default since Python 3.11, and 0 for
  no limit, which also stands for the interpreters before. A numeral with more digits than
  the limit is refused. The result \<open>None\<close> stands for the \<^verbatim>\<open>ValueError\<close>.
\<close>

definition int_of_string :: "nat \<Rightarrow> string \<Rightarrow> int option" where
  "int_of_string max_str_digits s =
     (let t = int_strip s;
          r = (case t of [] \<Rightarrow> None
               | c # cs \<Rightarrow>
                   if c = CHR ''-'' then map_option uminus (parse_unsigned cs)
                   else if c = CHR ''+'' then parse_unsigned cs
                   else parse_unsigned (c # cs))
      in if max_str_digits \<noteq> 0 \<and> max_str_digits < length (filter is_digit t) then None else r)"

subsection \<open>\<^verbatim>\<open>str(int)\<close>\<close>

fun nat_digits :: "nat \<Rightarrow> string" where
  "nat_digits n =
     (if n < 10 then [''0123456789'' ! n]
      else nat_digits (n div 10) @ [''0123456789'' ! (n mod 10)])"

definition str_of_int :: "int \<Rightarrow> string" where
  "str_of_int i = (if i < 0 then CHR ''-'' # nat_digits (nat (- i)) else nat_digits (nat i))"

section \<open>Paths\<close>

text \<open>
  \<^verbatim>\<open>PurePosixPath\<close>: \<^verbatim>\<open>splitroot\<close> keeps exactly two leading slashes apart from one or from
  three and more; the components are the non-empty pieces between slashes other than
  \<^verbatim>\<open>'.'\<close>.
\<close>

definition splitroot :: "string \<Rightarrow> string \<times> string" where
  "splitroot part =
     (let stripped = dropWhile (\<lambda>c. c = CHR ''/'') part in
      if part \<noteq> [] \<and> hd part = CHR ''/''
      then (if length part - length stripped = 2 then (''//'', stripped) else (''/'', stripped))
      else ([], part))"

definition path_components :: "string \<Rightarrow> string list" where
  "path_components rel = filter (\<lambda>x. x \<noteq> [] \<and> x \<noteq> ''.'') (split_sep CHR ''/'' rel)"

definition Path :: "string \<Rightarrow> ppath" where
  "Path s = (let (root, rel) = splitroot s in (root, path_components rel))"

definition path_str :: "ppath \<Rightarrow> string" where
  "path_str p =
     (let s = fst p @ join_sep CHR ''/'' (snd p) in if s = [] then ''.'' else s)"

definition path_parent :: "ppath \<Rightarrow> ppath" where
  "path_parent p = (fst p, butlast (snd p))"

text \<open>The operator \<^verbatim>\<open>p / s\<close>: an absolute right-hand side replaces the left one.\<close>

definition path_join :: "ppath \<Rightarrow> string \<Rightarrow> ppath" where
  "path_join p s = (let q = Path s in if fst q \<noteq> [] then q else (fst p, snd p @ snd q))"

definition is_absolute :: "ppath \<Rightarrow> bool" where
  "is_absolute p \<longleftrightarrow> fst p \<noteq> []"

definition path_absolute :: "string \<Rightarrow> ppath \<Rightarrow> ppath" where
  "path_absolute cwd p = (if is_absolute p then p else (fst (Path cwd), snd (Path cwd) @ snd p))"

section \<open>The environment of a run\<close>

text \<open>
  What the loader reads from outside itself: the process environment, the password database
  (for \<^verbatim>\<open>~\<close> and \<^verbatim>\<open>~user\<close>), the working directory, the files with their lines, whether
  standard input is a terminal and what the user answers to the prompt about a config file.
  Three library functions are taken as they come: \<^verbatim>\<open>shlex.split\<close> (\<open>None\<close> is its
  \<^verbatim>\<open>ValueError\<close>), the \<^verbatim>\<open>str()\<close> of a list or dict, and the grammar of \<^verbatim>\<open>json.loads\<close>, which
  returns the syntax tree on which the pairs hook then runs (\<open>None\<close> is a
  \<^verbatim>\<open>JSONDecodeError\<close>). The interpreter's limit on the digits of a numeral is part of the
  environment. \<^verbatim>\<open>fatalError\<close> of \<^verbatim>\<open>pycheribuild/utils.py\<close>, which is not among the sources,
  prints its message and either exits with a status or returns to its caller (\<open>None\<close>).
\<close>

datatype json =
    JNull
  | JBool bool
  | JNumber int
  | JString string
  | JArray "json list"
  | JObject "(string \<times> json) list"

record pysys =
  environ :: "string \<rightharpoonup> string"
  pw_uid_dir :: "string option"
  pw_name_dir :: "string \<rightharpoonup> string"
  getcwd :: string
  shlex_split :: "string \<Rightarrow> string list option"
  container_str :: "pyval \<Rightarrow> string"
  json_grammar :: "string \<Rightarrow> json option"
  files :: "ppath \<rightharpoonup> string list"
  stdin_isatty :: bool
  input_reply :: "ppath \<Rightarrow> string"
  int_max_str_digits :: nat
  fatalError_exit :: "nat option"

subsection \<open>\<^verbatim>\<open>os.path.expandvars\<close> and \<^verbatim>\<open>os.path.expanduser\<close>\<close>

definition is_word_char :: "char \<Rightarrow> bool" where
  "is_word_char c \<longleftrightarrow> is_alpha c \<or> is_digit c \<or> c = CHR ''_''"

text \<open>
  The pattern \<^verbatim>\<open>\$(\w+|\{[^}]*\})\<close> tried right after a dollar sign: the variable name and
  the number of characters the match takes after the dollar.
\<close>

definition match_var :: "string \<Rightarrow> (string \<times> nat) option" where
  "match_var cs =
     (case cs of [] \<Rightarrow> None
      | c # cs' \<Rightarrow>
          if is_word_char c
          then Some (takeWhile is_word_char cs, length (takeWhile is_word_char cs))
          else if c = CHR ''{'' \<and> CHR ''}'' \<in> set cs'
          then Some (takeWhile (\<lambda>x. x \<noteq> CHR ''}'') cs',
                     length (takeWhile (\<lambda>x. x \<noteq> CHR ''}'') cs') + 2)
          else None)"

text \<open>
  A reference to a variable that is set is replaced by its value, and the scan goes on
  behind the value; a reference to an unset variable stays as it is.
\<close>

fun expandvars :: "(string \<rightharpoonup> string) \<Rightarrow> string \<Rightarrow> string" where
  "expandvars env [] = []"
| "expandvars env (c # cs) =
     (if c = CHR ''$'' then
        (case match_var cs of
           None \<Rightarrow> c # expandvars env cs
         | Some (name, k) \<Rightarrow>
             (case env name of
                None \<Rightarrow> c # take k cs @ expandvars env (drop k cs)
              | Some v \<Rightarrow> v @ expandvars env (drop k cs)))
      else c # expandvars env cs)"

definition rstrip_slash :: "string \<Rightarrow> string" where
  "rstrip_slash s = rev (dropWhile (\<lambda>c. c = CHR ''/'') (rev s))"

definition expanduser :: "pysys \<Rightarrow> string \<Rightarrow> string" where
  "expanduser S path =
     (case path of [] \<Rightarrow> path
      | c # cs \<Rightarrow>
          if c \<noteq> CHR ''~'' then path
          else
            let user = takeWhile (\<lambda>x. x \<noteq> CHR ''/'') cs;
                rest = dropWhile (\<lambda>x. x \<noteq> CHR ''/'') cs;
                home = (if user = []
                        then (case environ S ''HOME'' of Some h \<Rightarrow> Some h | None \<Rightarrow> pw_uid_dir S)
                        else pw_name_dir S user)
            in (case home of
                  None \<Rightarrow> path
                | Some userhome \<Rightarrow>
                    (let r = rstrip_slash userhome @ rest in if r = [] then ''/'' else r)))"

section \<open>Value coercion\<close>

text \<open>The value types of the spec; an enum type carries its class name and member names.\<close>

datatype vtype = TStr | TBool | TInt | TPath | TList | TEnum string "string list"

definition py_str :: "pysys \<Rightarrow> pyval \<Rightarrow> string" where
  "py_str S v =
     (case v of
        VNone \<Rightarrow> ''None''
      | VBool b \<Rightarrow> (if b then ''True'' else ''False'')
      | VInt i \<Rightarrow> str_of_int i
      | VStr s \<Rightarrow> s
      | VPath p \<Rightarrow> path_str p
      | VEnum c n \<Rightarrow> c @ ''.'' @ n
      | _ \<Rightarrow> container_str S v)"

text \<open>\<^verbatim>\<open>bool(v)\<close> is the truth value of \<open>v\<close>, for a string too.\<close>

definition py_bool :: "pyval \<Rightarrow> bool" where
  "py_bool v =
     (case v of
        VNone \<Rightarrow> False
      | VBool b \<Rightarrow> b
      | VInt i \<Rightarrow> i \<noteq> 0
      | VStr s \<Rightarrow> s \<noteq> []
      | VList xs \<Rightarrow> xs \<noteq> []
      | VDict kvs \<Rightarrow> kvs \<noteq> []
      | VPath p \<Rightarrow> True
      | VEnum c n \<Rightarrow> True)"

definition py_int :: "pysys \<Rightarrow> pyval \<Rightarrow> error + pyval" where
  "py_int S v =
     (case v of
        VBool b \<Rightarrow> Inr (VInt (if b then 1 else 0))
      | VInt i \<Rightarrow> Inr (VInt i)
      | VStr s \<Rightarrow>
          (case int_of_string (int_max_str_digits S) s of
             None \<Rightarrow> Inl (ValueError s)
           | Some i \<Rightarrow> Inr (VInt i))
      | _ \<Rightarrow> Inl TypeError)"

definition py_list :: "pyval \<Rightarrow> error + pyval" where
  "py_list v =
     (case v of
        VList xs \<Rightarrow> Inr (VList xs)
      | VStr s \<Rightarrow> Inr (VList (map (\<lambda>c. VStr [c]) s))
      | VDict kvs \<Rightarrow> Inr (VList (map (\<lambda>kv. VStr (fst kv)) kvs))
      | _ \<Rightarrow> Inl TypeError)"

text \<open>\<^verbatim>\<open>_EnumArgparseType.__call__\<close>, on one value that is not a list.\<close>

definition enum_call1 :: "string \<Rightarrow> string list \<Rightarrow> pyval \<Rightarrow> error + pyval" where
  "enum_call1 cls members astring =
     (case astring of
        VEnum c n \<Rightarrow> if c = cls then Inr (VEnum c n) else Inl AttributeError
      | VStr s \<Rightarrow>
          (let enum_value_name = replace_char CHR ''-'' CHR ''_'' (upper s) in
           if enum_value_name \<in> set members then Inr (VEnum cls enum_value_name)
           else Inl (ArgumentTypeError cls (map lower members)))
      | _ \<Rightarrow> Inl AttributeError)"

text \<open>The list comprehension stops at the first element that raises.\<close>

fun sequence_err :: "(error + 'a) list \<Rightarrow> error + 'a list" where
  "sequence_err [] = Inr []"
| "sequence_err (x # xs) =
     (case x of Inl e \<Rightarrow> Inl e
      | Inr v \<Rightarrow> (case sequence_err xs of Inl e \<Rightarrow> Inl e | Inr vs \<Rightarrow> Inr (v # vs)))"

fun enum_call :: "string \<Rightarrow> string list \<Rightarrow> pyval \<Rightarrow> error + pyval" where
  "enum_call cls members (VList xs) =
     (case sequence_err (map (enum_call cls members) xs) of
        Inl e \<Rightarrow> Inl e | Inr vs \<Rightarrow> Inr (VList vs))"
| "enum_call cls members v = enum_call1 cls members v"

section \<open>Option declarations\<close>

text \<open>
  The three option classes, and one option as \<^verbatim>\<open>ConfigOptionBase.__init__\<close> stores it. A
  default is a literal or a function of the configuration object and the owning instance,
  which together are the type \<open>'c\<close>.
\<close>

datatype option_cls = DefaultValueOnlyConfigOption | CommandLineConfigOption | JsonAndCommandLineConfigOption

datatype 'c default_kind = Literal pyval | Computed "'c \<Rightarrow> pyval"

record 'c config_option =
  name :: string
  shortname :: "string option"
  default_value :: "'c default_kind"
  valueType :: vtype
  fallback_name :: "string option"
  option_class :: option_cls

definition getDefaultValue :: "'c config_option \<Rightarrow> 'c \<Rightarrow> pyval" where
  "getDefaultValue opt cfg = (case default_value opt of Literal v \<Rightarrow> v | Computed f \<Rightarrow> f cfg)"

text \<open>
  \<^verbatim>\<open>_convertType\<close>: a string for a list option goes through \<^verbatim>\<open>shlex.split\<close> first; a path
  option takes \<^verbatim>\<open>str()\<close> of the value, expands variables and \<^verbatim>\<open>~\<close> and makes the path
  absolute; every other type is called on the value.
\<close>

definition convertType :: "pysys \<Rightarrow> 'c config_option \<Rightarrow> pyval \<Rightarrow> error + pyval" where
  "convertType S opt result =
     (if result = VNone then Inr VNone
      else
        (case (case result of
                 VStr stringValue \<Rightarrow>
                   (if valueType opt = TList
                    then (case shlex_split S stringValue of
                            None \<Rightarrow> Inl (ValueError stringValue)
                          | Some ws \<Rightarrow> Inr (VList (map VStr ws)))
                    else Inr result)
               | _ \<Rightarrow> Inr result) of
           Inl e \<Rightarrow> Inl e
         | Inr r \<Rightarrow>
             (case valueType opt of
                TPath \<Rightarrow>
                  (let expanded = expanduser S (expandvars (environ S) (py_str S r))
                   in Inr (VPath (path_absolute (getcwd S) (Path expanded))))
              | TStr \<Rightarrow> Inr (VStr (py_str S r))
              | TBool \<Rightarrow> Inr (VBool (py_bool r))
              | TInt \<Rightarrow> py_int S r
              | TList \<Rightarrow> py_list r
              | TEnum cls members \<Rightarrow> enum_call cls members r)))"

section \<open>The command line\<close>

text \<open>
  \<^verbatim>\<open>argparse\<close> derives the attribute name of an action from its first long option string,
  with every \<^verbatim>\<open>-\<close> turned into \<^verbatim>\<open>_\<close>. The option strings are \<^verbatim>\<open>--name\<close> and, with a
  non-empty short name, \<^verbatim>\<open>-shortname\<close>. A boolean option gets a second action
  \<^verbatim>\<open>--<negatedName>\<close> that stores \<^verbatim>\<open>False\<close> in the same attribute. The default of every
  action is \<^verbatim>\<open>None\<close>, as the constructor asserts.
\<close>

type_synonym namespace = "string \<rightharpoonup> pyval"

definition dest :: "'c config_option \<Rightarrow> string" where
  "dest opt = replace_char CHR ''-'' CHR ''_'' (name opt)"

definition option_strings :: "'c config_option \<Rightarrow> string list" where
  "option_strings opt =
     (''--'' @ name opt) #
     (case shortname opt of None \<Rightarrow> [] | Some s \<Rightarrow> if s = [] then [] else [''-'' @ s])"

definition negatedName :: "string \<Rightarrow> string" where
  "negatedName nm =
     (let slashIndex = rfind_slash nm
      in take (nat (slashIndex + 1)) nm @ ''no-'' @ drop (nat (slashIndex + 1)) nm)"

definition action_default :: pyval where
  "action_default = VNone"

definition namespace_defaults :: "'c config_option list \<Rightarrow> namespace" where
  "namespace_defaults opts = map_of (map (\<lambda>opt. (dest opt, action_default)) opts)"

text \<open>
  \<^verbatim>\<open>parse_known_args\<close> gives every attribute the default of its action and then runs the
  actions of the option strings it finds on the command line, in their order. An action of
  the kinds \<^verbatim>\<open>store_true\<close> and \<^verbatim>\<open>store_false\<close> assigns its constant to its attribute. How the
  library finds the option strings among the tokens of a command line (in full, abbreviated,
  before \<^verbatim>\<open>--\<close>) and which command lines it refuses, ending the process, is its own and is
  not modelled: a command line enters as the list of the actions that were run for it, and
  a refused one yields no namespace. An action is kept as its attribute and the value it
  stores.
\<close>

type_synonym action = "string \<times> pyval"

definition store_true_action :: "'c config_option \<Rightarrow> action" where
  "store_true_action opt = (dest opt, VBool True)"

definition store_false_action :: "'c config_option \<Rightarrow> action" where
  "store_false_action opt = (dest opt, VBool False)"

text \<open>
  What the constructor of a boolean command-line option registers: each option string with
  the action that stores \<^verbatim>\<open>True\<close>, and \<^verbatim>\<open>--<negatedName>\<close> with the action that stores
  \<^verbatim>\<open>False\<close> in the same attribute.
\<close>

definition registered_actions :: "'c config_option \<Rightarrow> (string \<times> action) list" where
  "registered_actions opt =
     (if valueType opt = TBool
      then map (\<lambda>s. (s, store_true_action opt)) (option_strings opt) @
           [(''--'' @ negatedName (name opt), store_false_action opt)]
      else [])"

definition run_action :: "action \<Rightarrow> namespace \<Rightarrow> namespace" where
  "run_action a ns = ns(fst a \<mapsto> snd a)"

definition namespace_after :: "'c config_option list \<Rightarrow> action list \<Rightarrow> namespace" where
  "namespace_after opts acts = fold run_action acts (namespace_defaults opts)"

section \<open>The loader and the lookup of one option\<close>

record 'c loader =
  options :: "string \<rightharpoonup> 'c config_option"
  parsedArgs :: "namespace option"
  JSON :: "(string \<times> pyval) list"

definition loadFromCommandLine :: "'c loader \<Rightarrow> 'c config_option \<Rightarrow> error + pyval" where
  "loadFromCommandLine L opt =
     (case parsedArgs L of
        None \<Rightarrow> Inl AssertionError
      | Some ns \<Rightarrow> (case ns (dest opt) of None \<Rightarrow> Inl AssertionError | Some v \<Rightarrow> Inr v))"

text \<open>\<^verbatim>\<open>obj.get(key, dflt)\<close>: only a dict has the method.\<close>

definition py_get :: "pyval \<Rightarrow> string \<Rightarrow> pyval \<Rightarrow> error + pyval" where
  "py_get obj key dflt =
     (case obj of
        VDict kvs \<Rightarrow> Inr (case map_of kvs key of Some v \<Rightarrow> v | None \<Rightarrow> dflt)
      | _ \<Rightarrow> Inl AttributeError)"

fun follow_path :: "pyval \<Rightarrow> string list \<Rightarrow> error + pyval" where
  "follow_path jsonObject [] = Inr jsonObject"
| "follow_path jsonObject (objRef # rest) =
     (case py_get jsonObject objRef (VDict []) of
        Inl e \<Rightarrow> Inl e
      | Inr obj \<Rightarrow> follow_path obj rest)"

definition lookupKeyInJson :: "(string \<times> pyval) list \<Rightarrow> string \<Rightarrow> error + pyval" where
  "lookupKeyInJson J fullOptionName =
     (case map_of J fullOptionName of
        Some v \<Rightarrow> Inr v
      | None \<Rightarrow>
          (let jsonPath = split_sep CHR ''/'' fullOptionName;
               jsonKey = last jsonPath
           in (case follow_path (VDict J) (butlast jsonPath) of
                 Inl e \<Rightarrow> Inl e
               | Inr jsonObject \<Rightarrow> py_get jsonObject jsonKey VNone)))"

text \<open>The loop over the other long option strings; it stops at the first key with a value.\<close>

fun lookup_option_strings ::
  "(string \<times> pyval) list \<Rightarrow> string list \<Rightarrow> error + (pyval \<times> string option)" where
  "lookup_option_strings J [] = Inr (VNone, None)"
| "lookup_option_strings J (optionName # rest) =
     (if startswith optionName ''--'' then
        (case lookupKeyInJson J (drop 2 optionName) of
           Inl e \<Rightarrow> Inl e
         | Inr r \<Rightarrow> if r \<noteq> VNone then Inr (r, Some (drop 2 optionName))
                    else lookup_option_strings J rest)
      else lookup_option_strings J rest)"

definition loadFromJson ::
  "(string \<times> pyval) list \<Rightarrow> 'c config_option \<Rightarrow> error + (pyval \<times> string option)" where
  "loadFromJson J opt =
     (case lookupKeyInJson J (name opt) of
        Inl e \<Rightarrow> Inl e
      | Inr r \<Rightarrow>
          (case (if r = VNone then lookup_option_strings J (option_strings opt)
                 else Inr (r, Some (name opt))) of
             Inl e \<Rightarrow> Inl e
           | Inr (result, used_key) \<Rightarrow>
               if result = VNone
               then Inr (case map_of J (dest opt) of Some v \<Rightarrow> v | None \<Rightarrow> VNone, used_key)
               else Inr (result, used_key)))"

text \<open>\<^verbatim>\<open>_loadOptionImpl\<close> of the three classes.\<close>

definition loadOptionImpl :: "'c loader \<Rightarrow> 'c config_option \<Rightarrow> error + pyval" where
  "loadOptionImpl L opt =
     (case option_class opt of
        DefaultValueOnlyConfigOption \<Rightarrow> Inr VNone
      | CommandLineConfigOption \<Rightarrow> loadFromCommandLine L opt
      | JsonAndCommandLineConfigOption \<Rightarrow>
          (case loadFromCommandLine L opt of
             Inl e \<Rightarrow> Inl e
           | Inr fromCmdLine \<Rightarrow>
               if fromCmdLine \<noteq> VNone \<and> fromCmdLine \<noteq> action_default then Inr fromCmdLine
               else (case loadFromJson (JSON L) opt of
                       Inl e \<Rightarrow> Inl e
                     | Inr fromJson \<Rightarrow> Inr (fst fromJson))))"

text \<open>
  The \<^verbatim>\<open>try\<close> block at the end of \<^verbatim>\<open>loadOption\<close>: a \<^verbatim>\<open>ValueError\<close> of the conversion goes to
  \<^verbatim>\<open>fatalError\<close> with the option name and the value that could not be converted, and
  \<^verbatim>\<open>sys.exit()\<close> follows, which ends the process with status 0 if \<^verbatim>\<open>fatalError\<close> returns.
  Any other exception passes through.
\<close>

definition convert_or_exit :: "pysys \<Rightarrow> 'c config_option \<Rightarrow> pyval \<Rightarrow> error + pyval" where
  "convert_or_exit S opt result =
     (case convertType S opt result of
        Inl (ValueError m) \<Rightarrow>
          Inl (SystemExit (case fatalError_exit S of Some st \<Rightarrow> st | None \<Rightarrow> 0) (name opt) result)
      | r \<Rightarrow> r)"

definition loadOption :: "pysys \<Rightarrow> 'c loader \<Rightarrow> 'c \<Rightarrow> 'c config_option \<Rightarrow> error + pyval" where
  "loadOption S L cfg opt =
     (case loadOptionImpl L opt of
        Inl e \<Rightarrow> Inl e
      | Inr result \<Rightarrow>
          (case (case fallback_name opt of
                   None \<Rightarrow> Inr result
                 | Some fb \<Rightarrow>
                     if result = VNone
                     then (case options L fb of
                             None \<Rightarrow> Inl AssertionError
                           | Some fallback_option \<Rightarrow> loadOptionImpl L fallback_option)
                     else Inr result) of
             Inl e \<Rightarrow> Inl e
           | Inr result' \<Rightarrow>
               convert_or_exit S opt (if result' = VNone then getDefaultValue opt cfg else result')))"

section \<open>Loading the JSON file\<close>

text \<open>
  \<^verbatim>\<open>dict_raise_on_duplicates\<close> is the pairs hook: it fills a dict pair by pair and raises at
  the first key that is already there. The decoder calls it on every object when the object
  is complete, the values inside it first and from left to right.
\<close>

fun raise_on_duplicates_loop ::
  "(string \<times> pyval) list \<Rightarrow> (string \<times> pyval) list \<Rightarrow> error + (string \<times> pyval) list" where
  "raise_on_duplicates_loop d [] = Inr d"
| "raise_on_duplicates_loop d ((k, v) # rest) =
     (if k \<in> set (map fst d) then Inl (SyntaxError k)
      else raise_on_duplicates_loop (d @ [(k, v)]) rest)"

definition dict_raise_on_duplicates ::
  "(string \<times> pyval) list \<Rightarrow> error + (string \<times> pyval) list" where
  "dict_raise_on_duplicates ordered_pairs = raise_on_duplicates_loop [] ordered_pairs"

fun json_decode :: "json \<Rightarrow> error + pyval"
  and json_decode_list :: "json list \<Rightarrow> error + pyval list"
  and json_decode_pairs :: "(string \<times> json) list \<Rightarrow> error + (string \<times> pyval) list" where
  "json_decode JNull = Inr VNone"
| "json_decode (JBool b) = Inr (VBool b)"
| "json_decode (JNumber i) = Inr (VInt i)"
| "json_decode (JString s) = Inr (VStr s)"
| "json_decode (JArray xs) =
     (case json_decode_list xs of Inl e \<Rightarrow> Inl e | Inr vs \<Rightarrow> Inr (VList vs))"
| "json_decode (JObject kvs) =
     (case json_decode_pairs kvs of
        Inl e \<Rightarrow> Inl e
      | Inr ordered_pairs \<Rightarrow>
          (case dict_raise_on_duplicates ordered_pairs of
             Inl e \<Rightarrow> Inl e
           | Inr d \<Rightarrow> Inr (VDict d)))"
| "json_decode_list [] = Inr []"
| "json_decode_list (x # xs) =
     (case json_decode x of
        Inl e \<Rightarrow> Inl e
      | Inr v \<Rightarrow> (case json_decode_list xs of Inl e \<Rightarrow> Inl e | Inr vs \<Rightarrow> Inr (v # vs)))"
| "json_decode_pairs [] = Inr []"
| "json_decode_pairs (kv # kvs) =
     (case json_decode (snd kv) of
        Inl e \<Rightarrow> Inl e
      | Inr v \<Rightarrow>
          (case json_decode_pairs kvs of
             Inl e \<Rightarrow> Inl e
           | Inr rest \<Rightarrow> Inr ((fst kv, v) # rest)))"

text \<open>
  \<^verbatim>\<open>__load_json_with_comments\<close>: opening a file that does not exist raises; the lines that
  start with \<^verbatim>\<open>#\<close> or \<^verbatim>\<open>//\<close> after stripping are dropped; the rest is parsed.
\<close>

definition load_json_with_comments :: "pysys \<Rightarrow> ppath \<Rightarrow> error + pyval" where
  "load_json_with_comments S config_path =
     (case files S config_path of
        None \<Rightarrow> Inl (FileNotFoundError config_path)
      | Some lines \<Rightarrow>
          (let json_lines =
                 filter (\<lambda>line. \<not> startswith (strip line) ''#'' \<and> \<not> startswith (strip line) ''//'')
                        lines
           in (case json_grammar S (concat json_lines) of
                 None \<Rightarrow> Inl JSONDecodeError
               | Some tree \<Rightarrow> json_decode tree)))"

text \<open>\<^verbatim>\<open>d[k] = v\<close> and \<^verbatim>\<open>base.update(other)\<close> on a dict kept in insertion order.\<close>

definition dict_setitem :: "(string \<times> pyval) list \<Rightarrow> string \<Rightarrow> pyval \<Rightarrow> (string \<times> pyval) list" where
  "dict_setitem d k v =
     (if k \<in> set (map fst d) then map (\<lambda>kv. if fst kv = k then (k, v) else kv) d
      else d @ [(k, v)])"

definition dict_update ::
  "(string \<times> pyval) list \<Rightarrow> (string \<times> pyval) list \<Rightarrow> (string \<times> pyval) list" where
  "dict_update base other = fold (\<lambda>kv d. dict_setitem d (fst kv) (snd kv)) other base"

text \<open>
  After a failed load the user of a terminal is asked whether to continue; the exception is
  raised again unless the answer starts with \<^verbatim>\<open>y\<close>.
\<close>

definition continue_anyway :: "pysys \<Rightarrow> ppath \<Rightarrow> bool" where
  "continue_anyway S config_path \<longleftrightarrow>
     stdin_isatty S \<and> startswith (lower (input_reply S config_path)) ''y''"

text \<open>
  \<^verbatim>\<open>__load_json_with_includes\<close>. The first argument bounds the depth of the recursion, as
  the interpreter does: a chain of includes that is deeper ends in a \<^verbatim>\<open>RecursionError\<close>.
\<close>

fun load_json_with_includes ::
  "pysys \<Rightarrow> nat \<Rightarrow> ppath \<Rightarrow> error + (string \<times> pyval) list" where
  "load_json_with_includes S 0 config_path = Inl RecursionError"
| "load_json_with_includes S (Suc depth) config_path =
     (case (case load_json_with_comments S config_path of
              Inl e \<Rightarrow> if continue_anyway S config_path then Inr (VDict []) else Inl e
            | Inr r \<Rightarrow> Inr r) of
        Inl e \<Rightarrow> Inl e
      | Inr (VDict result) \<Rightarrow>
          (let include_value = (case map_of result ''#include'' of Some v \<Rightarrow> v | None \<Rightarrow> VNone)
           in if py_bool include_value then
                (case include_value of
                   VStr inc \<Rightarrow>
                     (case load_json_with_includes S depth
                             (path_join (path_parent config_path) inc) of
                        Inl e \<Rightarrow> Inl e
                      | Inr base_json \<Rightarrow> Inr (dict_update base_json result))
                 | _ \<Rightarrow> Inl TypeError)
              else Inr result)
      | Inr _ \<Rightarrow> Inl AttributeError)"

definition load_json_config_file ::
  "pysys \<Rightarrow> nat \<Rightarrow> ppath \<Rightarrow> 'c loader \<Rightarrow> error + 'c loader" where
  "load_json_config_file S depth configPath L =
     (if files S configPath \<noteq> None
      then (case load_json_with_includes S depth configPath of
              Inl e \<Rightarrow> Inl e
            | Inr j \<Rightarrow> Inr (L\<lparr>JSON := j\<rparr>))
      else Inr (L\<lparr>JSON := []\<rparr>))"


section \<open>The order of the sources in the words of the spec\<close>

text \<open>The first value of a list of sources that is not \<^verbatim>\<open>None\<close>.\<close>

definition first_not_none :: "pyval list \<Rightarrow> pyval" where
  "first_not_none vs = (case filter (\<lambda>v. v \<noteq> VNone) vs of [] \<Rightarrow> VNone | v # _ \<Rightarrow> v)"

text \<open>
  The numbered contract of the spec, section 4.3, read literally: the command-line value of
  the option; then, with a fallback name, the command-line or JSON value of the fallback
  option; then the JSON value of the option; then its default. It is built from the same
  lookups as \<open>loadOption\<close> and differs from it only in the order.
\<close>

definition spec_resolve :: "pysys \<Rightarrow> 'c loader \<Rightarrow> 'c \<Rightarrow> 'c config_option \<Rightarrow> error + pyval" where
  "spec_resolve S L cfg opt =
     (case loadFromCommandLine L opt of
        Inl e \<Rightarrow> Inl e
      | Inr c \<Rightarrow>
          if c \<noteq> VNone then convert_or_exit S opt c
          else
            (case (case fallback_name opt of
                     None \<Rightarrow> Inr VNone
                   | Some fb \<Rightarrow>
                       (case options L fb of
                          None \<Rightarrow> Inl AssertionError
                        | Some fallback_option \<Rightarrow> loadOptionImpl L fallback_option)) of
               Inl e \<Rightarrow> Inl e
             | Inr f \<Rightarrow>
                 if f \<noteq> VNone then convert_or_exit S opt f
                 else
                   (case loadFromJson (JSON L) opt of
                      Inl e \<Rightarrow> Inl e
                    | Inr fromJson \<Rightarrow>
                        convert_or_exit S opt
                          (if fst fromJson \<noteq> VNone then fst fromJson
                           else getDefaultValue opt cfg))))"

section \<open>The helper that reports a fatal error\<close>

text \<open>
  Modelled from the spec: \<^verbatim>\<open>fatalError\<close> is defined in \<^verbatim>\<open>pycheribuild/utils.py\<close>, which is
  not among the sources. The spec, section 7, has a value that fails type coercion reported
  as a fatal error and the process exit non-zero. An environment is as specified when its
  \<^verbatim>\<open>fatalError\<close> ends the process, with a status other than 0.
\<close>

definition fatalError_as_specified :: "pysys \<Rightarrow> bool" where
  "fatalError_as_specified S \<longleftrightarrow> (case fatalError_exit S of None \<Rightarrow> False | Some st \<Rightarrow> st \<noteq> 0)"

section \<open>Repeated keys of a JSON text\<close>

text \<open>
  The keys of a list that occur again further right, and the keys that some object of a
  syntax tree, at any depth, holds more than once.
\<close>

fun duplicates :: "string list \<Rightarrow> string list" where
  "duplicates [] = []"
| "duplicates (k # ks) = (if k \<in> set ks then k # duplicates ks else duplicates ks)"

fun keys_twice :: "json \<Rightarrow> string list"
  and keys_twice_list :: "json list \<Rightarrow> string list"
  and keys_twice_pairs :: "(string \<times> json) list \<Rightarrow> string list" where
  "keys_twice JNull = []"
| "keys_twice (JBool b) = []"
| "keys_twice (JNumber i) = []"
| "keys_twice (JString s) = []"
| "keys_twice (JArray xs) = keys_twice_list xs"
| "keys_twice (JObject kvs) = keys_twice_pairs kvs @ duplicates (map fst kvs)"
| "keys_twice_list [] = []"
| "keys_twice_list (x # xs) = keys_twice x @ keys_twice_list xs"
| "keys_twice_pairs [] = []"
| "keys_twice_pairs (kv # kvs) = keys_twice (snd kv) @ keys_twice_pairs kvs"

text \<open>The lines of a file that are left after the comment lines are dropped, as one text.\<close>

definition json_text :: "string list \<Rightarrow> string" where
  "json_text lines =
     concat (filter (\<lambda>line. \<not> startswith (strip line) ''#'' \<and> \<not> startswith (strip line) ''//'')
               lines)"

section \<open>Well-formed path components\<close>

text \<open>The components a parsed path can have: not empty, not \<^verbatim>\<open>'.'\<close>, without a slash.\<close>

definition wf_comps :: "string list \<Rightarrow> bool" where
  "wf_comps comps \<longleftrightarrow> list_all (\<lambda>w. w \<noteq> [] \<and> w \<noteq> ''.'' \<and> CHR ''/'' \<notin> set w) comps"

section \<open>Example runs\<close>

text \<open>
  The options of the test \<^verbatim>\<open>test_cross_compile_project_inherits\<close>: the base option
  \<^verbatim>\<open>qtbase/build-tests\<close> and its per-target variant, which names the base as its fallback.
\<close>

definition qtbase_build_tests :: "unit config_option" where
  "qtbase_build_tests =
     \<lparr>name = ''qtbase/build-tests'', shortname = None, default_value = Literal (VBool False),
      valueType = TBool, fallback_name = None, option_class = JsonAndCommandLineConfigOption\<rparr>"

definition qtbase_mips_build_tests :: "unit config_option" where
  "qtbase_mips_build_tests =
     \<lparr>name = ''qtbase-mips/build-tests'', shortname = None, default_value = Literal (VBool False),
      valueType = TBool, fallback_name = Some ''qtbase/build-tests'',
      option_class = JsonAndCommandLineConfigOption\<rparr>"

definition qtbase_registry :: "unit config_option list" where
  "qtbase_registry = [qtbase_build_tests, qtbase_mips_build_tests]"

text \<open>The loader after the given actions of the command line, with the given JSON document.\<close>

definition qtbase_loader :: "action list \<Rightarrow> (string \<times> pyval) list \<Rightarrow> unit loader" where
  "qtbase_loader acts json =
     \<lparr>options = map_of (map (\<lambda>opt. (name opt, opt)) qtbase_registry),
      parsedArgs = Some (namespace_after qtbase_registry acts),
      JSON = json\<rparr>"

text \<open>
  An environment for the examples. Its \<^verbatim>\<open>shlex.split\<close> stands in for the library's on
  strings without quotes, and its \<^verbatim>\<open>str()\<close> of a container is a fixed text.
\<close>

definition example_sys :: pysys where
  "example_sys =
     \<lparr>environ = [''A'' \<mapsto> ''$B'', ''B'' \<mapsto> ''/b''],
      pw_uid_dir = Some ''/home/user'',
      pw_name_dir = Map.empty,
      getcwd = ''/work'',
      shlex_split = (\<lambda>s. Some (filter (\<lambda>w. w \<noteq> []) (split_sep CHR '' '' s))),
      container_str = (\<lambda>v. ''[...]''),
      json_grammar = (\<lambda>s. None),
      files = Map.empty,
      stdin_isatty = False,
      input_reply = (\<lambda>p. []),
      int_max_str_digits = 4300,
      fatalError_exit = Some 3\<rparr>"

definition llvm_json :: "(string \<times> pyval) list" where
  "llvm_json =
     [(''llvm'', VDict [(''build-type'', VStr ''Debug'')]), (''llvm/build-type'', VStr ''Release'')]"

text \<open>
  The build directory of the same project: an option without a fallback, whose default is
  computed for each target. The namespace holds the command-line value given for the base.
\<close>

definition qtbase_build_directory :: "unit config_option" where
  "qtbase_build_directory =
     \<lparr>name = ''qtbase/build-directory'', shortname = None,
      default_value = Computed (\<lambda>cfg. VStr ''/build/qtbase-128-build''),
      valueType = TPath, fallback_name = None, option_class = JsonAndCommandLineConfigOption\<rparr>"




text \<open>
  The files of \<^verbatim>\<open>test_config_file_include\<close> in a directory \<^verbatim>\<open>/cfg\<close>, with the syntax trees
  of their texts: a base file, a file that includes it and sets the same key before the
  include, a file that includes a missing file, and a file with two includes.
\<close>

definition common_128 :: "string list" where
  \<open>common_128 = [''{ "cheri-bits": 128 }'']\<close>

definition config_256 :: "string list" where
  \<open>config_256 = [''# the current file wins'', ''{ "cheri-bits": 256, "#include": "128-common.json"}'']\<close>

definition config_bad_path :: "string list" where
  \<open>config_bad_path = [''{ "#include": "bad-path.json"}'']\<close>

definition config_two_includes :: "string list" where
  \<open>config_two_includes =
     [''{ "#include": "128-common.json", "foo": "bar", "#include": "256-common.json"}'']\<close>

definition example_grammar :: "string \<Rightarrow> json option" where
  "example_grammar =
     map_of
       [(json_text common_128, JObject [(''cheri-bits'', JNumber 128)]),
        (json_text config_256,
           JObject [(''cheri-bits'', JNumber 256), (''#include'', JString ''128-common.json'')]),
        (json_text config_bad_path, JObject [(''#include'', JString ''bad-path.json'')]),
        (json_text config_two_includes,
           JObject [(''#include'', JString ''128-common.json''), (''foo'', JString ''bar''),
                    (''#include'', JString ''256-common.json'')])]"

definition include_sys :: pysys where
  "include_sys =
     example_sys
       \<lparr>json_grammar := example_grammar,
        files := [(''/'', [''cfg'', ''128-common.json'']) \<mapsto> common_128,
                  (''/'', [''cfg'', ''config.json'']) \<mapsto> config_256,
                  (''/'', [''cfg'', ''bad.json'']) \<mapsto> config_bad_path,
                  (''/'', [''cfg'', ''twice.json'']) \<mapsto> config_two_includes]\<rparr>"

text \<open>An integer option, as \<^verbatim>\<open>make-jobs\<close> of the Jenkins configuration is declared.\<close>

definition make_jobs :: "unit config_option" where
  "make_jobs =
     \<lparr>name = ''make-jobs'', shortname = Some ''j'', default_value = Literal (VInt 8),
      valueType = TInt, fallback_name = None, option_class = CommandLineConfigOption\<rparr>"

section \<open>Properties of the option lookup\<close>

text \<open>Unfolding sets for the evaluation of the example runs.\<close>

lemmas qtbase_defs = qtbase_loader_def qtbase_registry_def qtbase_build_tests_def
  qtbase_mips_build_tests_def
lemmas cmdline_defs = namespace_after_def run_action_def store_true_action_def
  store_false_action_def namespace_defaults_def dest_def option_strings_def
  negatedName_def replace_char_def action_default_def
lemmas json_defs = loadFromJson_def lookupKeyInJson_def py_get_def startswith_def
lemmas convert_defs = convert_or_exit_def convertType_def getDefaultValue_def py_bool_def
  py_str_def

subsection \<open>The steps of \<open>loadOption\<close>\<close>

lemma lookupKeyInJson_flat: "map_of J nm = Some v \<Longrightarrow> lookupKeyInJson J nm = Inr v"
  by (simp add: lookupKeyInJson_def)

lemma loadFromJson_flat:
  "map_of J (name opt) = Some v \<Longrightarrow> v \<noteq> VNone \<Longrightarrow> loadFromJson J opt = Inr (v, Some (name opt))"
  by (simp add: loadFromJson_def lookupKeyInJson_flat)

lemma loadOptionImpl_cmdline:
  assumes "option_class opt = JsonAndCommandLineConfigOption"
    and "parsedArgs L = Some ns" and "ns (dest opt) = Some c" and "c \<noteq> VNone"
  shows "loadOptionImpl L opt = Inr c"
  using assms by (simp add: loadOptionImpl_def loadFromCommandLine_def action_default_def)

lemma loadOptionImpl_json:
  assumes "option_class opt = JsonAndCommandLineConfigOption"
    and "parsedArgs L = Some ns" and "ns (dest opt) = Some VNone"
    and "loadFromJson (JSON L) opt = Inr (j, k)"
  shows "loadOptionImpl L opt = Inr j"
  using assms by (simp add: loadOptionImpl_def loadFromCommandLine_def action_default_def)

lemma loadOption_own:
  assumes "loadOptionImpl L opt = Inr r" and "r \<noteq> VNone"
  shows "loadOption S L cfg opt = convert_or_exit S opt r"
  using assms by (simp add: loadOption_def split: option.splits)

lemma loadOption_no_fallback:
  assumes "loadOptionImpl L opt = Inr r" and "fallback_name opt = None"
  shows "loadOption S L cfg opt =
           convert_or_exit S opt (if r = VNone then getDefaultValue opt cfg else r)"
  using assms by (simp add: loadOption_def)

lemma loadOption_fallback:
  assumes "loadOptionImpl L opt = Inr VNone" and "fallback_name opt = Some fb"
    and "options L fb = Some fo" and "loadOptionImpl L fo = Inr f"
  shows "loadOption S L cfg opt =
           convert_or_exit S opt (if f = VNone then getDefaultValue opt cfg else f)"
  using assms by (simp add: loadOption_def)

lemma first_not_none_Cons:
  "first_not_none (v # vs) = (if v \<noteq> VNone then v else first_not_none vs)"
  by (simp add: first_not_none_def)

lemma first_not_none_Nil: "first_not_none [] = VNone"
  by (simp add: first_not_none_def)

subsection \<open>A value of the option itself beats the base option\<close>

text \<open>
  Claim C1. For an option that is read from the command line and the JSON file, a value
  given for the option itself, on the command line or else in the JSON file, is the value
  that is converted and returned. Nothing about the loader's other entries is assumed, so
  whatever the base option named as fallback has on the command line or in the JSON file
  plays no part; in particular a JSON entry of the target-specific option beats a
  command-line value of the base option.
\<close>

theorem target_specific_value_wins:
  assumes "option_class opt = JsonAndCommandLineConfigOption"
    and "parsedArgs L = Some ns" and "ns (dest opt) = Some c"
    and "c \<noteq> VNone \<or> (c = VNone \<and> loadFromJson (JSON L) opt = Inr (j, k) \<and> j \<noteq> VNone)"
  shows "loadOption S L cfg opt = convert_or_exit S opt (if c \<noteq> VNone then c else j)"
proof (cases "c = VNone")
  case False
  with assms have "loadOptionImpl L opt = Inr c" by (simp add: loadOptionImpl_cmdline)
  with False show ?thesis by (simp add: loadOption_own)
next
  case True
  with assms have j: "loadFromJson (JSON L) opt = Inr (j, k)" "j \<noteq> VNone" by auto
  from assms True j have "loadOptionImpl L opt = Inr j" by (simp add: loadOptionImpl_json)
  with True j show ?thesis by (simp add: loadOption_own)
qed

text \<open>
  The run of the test: \<^verbatim>\<open>--qtbase/build-tests\<close> on the command line and
  \<^verbatim>\<open>{"qtbase-mips/build-tests": false}\<close> in the file give \<^verbatim>\<open>False\<close> for the MIPS variant.
\<close>

theorem target_specific_value_wins_witness:
  "parsedArgs (qtbase_loader [store_true_action qtbase_build_tests] [(''qtbase-mips/build-tests'', VBool False)])
     = Some (namespace_after qtbase_registry [store_true_action qtbase_build_tests])
   \<and> namespace_after qtbase_registry [store_true_action qtbase_build_tests] (dest qtbase_build_tests) = Some (VBool True)
   \<and> namespace_after qtbase_registry [store_true_action qtbase_build_tests] (dest qtbase_mips_build_tests) = Some VNone
   \<and> loadFromJson [(''qtbase-mips/build-tests'', VBool False)] qtbase_mips_build_tests
       = Inr (VBool False, Some ''qtbase-mips/build-tests'')
   \<and> loadOption example_sys
        (qtbase_loader [store_true_action qtbase_build_tests] [(''qtbase-mips/build-tests'', VBool False)]) ()
        qtbase_mips_build_tests = Inr (VBool False)"
proof -
  let ?L = "qtbase_loader [store_true_action qtbase_build_tests] [(''qtbase-mips/build-tests'', VBool False)]"
  let ?ns = "namespace_after qtbase_registry [store_true_action qtbase_build_tests]"
  have cls: "option_class qtbase_mips_build_tests = JsonAndCommandLineConfigOption"
    by (simp add: qtbase_defs)
  have args: "parsedArgs ?L = Some ?ns"
    by (simp add: qtbase_loader_def)
  have base: "?ns (dest qtbase_build_tests) = Some (VBool True)"
    by (simp add: qtbase_defs cmdline_defs)
  have own: "?ns (dest qtbase_mips_build_tests) = Some VNone"
    by (simp add: qtbase_defs cmdline_defs)
  have json: "loadFromJson (JSON ?L) qtbase_mips_build_tests
                = Inr (VBool False, Some ''qtbase-mips/build-tests'')"
    by (simp add: qtbase_defs json_defs)
  have conv: "convert_or_exit example_sys qtbase_mips_build_tests (VBool False) = Inr (VBool False)"
    by (simp add: qtbase_defs convert_defs)
  from target_specific_value_wins[OF cls args own, of "VBool False" "Some ''qtbase-mips/build-tests''" example_sys "()"]
    json conv
  have "loadOption example_sys ?L () qtbase_mips_build_tests = Inr (VBool False)"
    by simp
  with args base own json show ?thesis
    by (simp add: qtbase_loader_def)
qed

subsection \<open>The order of the sources\<close>

text \<open>
  The order of the spec's contract, with the fallback before the option's own JSON value, is
  not the order of the code: in the run above the contract's order returns the base option's
  \<^verbatim>\<open>True\<close>, the code the option's own \<^verbatim>\<open>False\<close>.
\<close>

theorem spec_order_counterexample:
  "loadOption example_sys
     (qtbase_loader [store_true_action qtbase_build_tests] [(''qtbase-mips/build-tests'', VBool False)]) ()
     qtbase_mips_build_tests = Inr (VBool False)
   \<and> spec_resolve example_sys
     (qtbase_loader [store_true_action qtbase_build_tests] [(''qtbase-mips/build-tests'', VBool False)]) ()
     qtbase_mips_build_tests = Inr (VBool True)"
  by (simp add: qtbase_defs cmdline_defs json_defs convert_defs loadOption_def spec_resolve_def
      loadOptionImpl_def loadFromCommandLine_def)

text \<open>
  Claim C2, as the code has it. The sources of an option are taken in this order, the first
  one that is not \<^verbatim>\<open>None\<close> being converted and returned: the command-line value of the
  option; the JSON value of the option; with a fallback name, the command-line or JSON value
  of the fallback option; the default of the option. The own JSON value comes before the
  fallback.
\<close>

theorem resolve_order:
  assumes "option_class opt = JsonAndCommandLineConfigOption"
    and "parsedArgs L = Some ns" and "ns (dest opt) = Some c"
    and "loadFromJson (JSON L) opt = Inr (j, k)"
    and "(fallback_name opt = None \<and> f = VNone) \<or>
         (\<exists>fb fo. fallback_name opt = Some fb \<and> options L fb = Some fo \<and> loadOptionImpl L fo = Inr f)"
  shows "loadOption S L cfg opt =
           convert_or_exit S opt (first_not_none [c, j, f, getDefaultValue opt cfg])"
proof (cases "c = VNone")
  case False
  with assms have "loadOptionImpl L opt = Inr c" by (simp add: loadOptionImpl_cmdline)
  with False show ?thesis by (simp add: loadOption_own first_not_none_Cons)
next
  case c: True
  with assms have impl: "loadOptionImpl L opt = Inr j" by (simp add: loadOptionImpl_json)
  show ?thesis
  proof (cases "j = VNone")
    case False
    with impl c show ?thesis by (simp add: loadOption_own first_not_none_Cons)
  next
    case j: True
    from assms(5) show ?thesis
    proof
      assume "fallback_name opt = None \<and> f = VNone"
      with impl c j show ?thesis
        by (simp add: loadOption_no_fallback first_not_none_Cons first_not_none_Nil)
    next
      assume "\<exists>fb fo. fallback_name opt = Some fb \<and> options L fb = Some fo \<and> loadOptionImpl L fo = Inr f"
      then obtain fb fo where "fallback_name opt = Some fb" "options L fb = Some fo"
        "loadOptionImpl L fo = Inr f" by blast
      with impl c j show ?thesis
        using loadOption_fallback[of L opt fb fo f S cfg]
        by (simp add: first_not_none_Cons first_not_none_Nil)
    qed
  qed
qed

theorem resolve_order_witness:
  "namespace_after qtbase_registry [store_true_action qtbase_build_tests] (dest qtbase_mips_build_tests) = Some VNone
   \<and> loadFromJson [(''qtbase-mips/build-tests'', VBool False)] qtbase_mips_build_tests
       = Inr (VBool False, Some ''qtbase-mips/build-tests'')
   \<and> loadOptionImpl
        (qtbase_loader [store_true_action qtbase_build_tests] [(''qtbase-mips/build-tests'', VBool False)])
        qtbase_build_tests = Inr (VBool True)
   \<and> first_not_none [VNone, VBool False, VBool True, getDefaultValue qtbase_mips_build_tests ()]
       = VBool False
   \<and> loadOption example_sys
        (qtbase_loader [store_true_action qtbase_build_tests] [(''qtbase-mips/build-tests'', VBool False)]) ()
        qtbase_mips_build_tests = Inr (VBool False)"
proof -
  let ?L = "qtbase_loader [store_true_action qtbase_build_tests] [(''qtbase-mips/build-tests'', VBool False)]"
  let ?ns = "namespace_after qtbase_registry [store_true_action qtbase_build_tests]"
  have cls: "option_class qtbase_mips_build_tests = JsonAndCommandLineConfigOption"
    by (simp add: qtbase_defs)
  have args: "parsedArgs ?L = Some ?ns"
    by (simp add: qtbase_loader_def)
  have own: "?ns (dest qtbase_mips_build_tests) = Some VNone"
    by (simp add: qtbase_defs cmdline_defs)
  have json: "loadFromJson (JSON ?L) qtbase_mips_build_tests
                = Inr (VBool False, Some ''qtbase-mips/build-tests'')"
    by (simp add: qtbase_defs json_defs)
  have fb: "fallback_name qtbase_mips_build_tests = Some ''qtbase/build-tests''"
    by (simp add: qtbase_defs)
  have reg: "options ?L ''qtbase/build-tests'' = Some qtbase_build_tests"
    by (simp add: qtbase_defs)
  have base: "loadOptionImpl ?L qtbase_build_tests = Inr (VBool True)"
    by (simp add: qtbase_defs cmdline_defs loadOptionImpl_def loadFromCommandLine_def)
  have first: "first_not_none [VNone, VBool False, VBool True, getDefaultValue qtbase_mips_build_tests ()]
                 = VBool False"
    by (simp add: first_not_none_def)
  have conv: "convert_or_exit example_sys qtbase_mips_build_tests (VBool False) = Inr (VBool False)"
    by (simp add: qtbase_defs convert_defs)
  from fb reg base
  have link: "(fallback_name qtbase_mips_build_tests = None \<and> VBool True = VNone) \<or>
      (\<exists>fb fo. fallback_name qtbase_mips_build_tests = Some fb \<and> options ?L fb = Some fo \<and>
               loadOptionImpl ?L fo = Inr (VBool True))"
    by blast
  from resolve_order[OF cls args own json link, of example_sys "()"] first conv
  have "loadOption example_sys ?L () qtbase_mips_build_tests = Inr (VBool False)"
    by simp
  with own json base first show ?thesis
    by (simp add: qtbase_loader_def)
qed

subsection \<open>The fallback stops at the command line and the JSON file\<close>



subsection \<open>The flat key comes before the nested object\<close>

text \<open>
  Claim C10. When the top level of the JSON document has the full option name as a key,
  \<^verbatim>\<open>_lookupKeyInJson\<close> returns the value of that key: the same value for every document
  with that entry, whatever nested objects it holds, so the nested form is read only when
  the flat key is missing. If that value is not \<^verbatim>\<open>None\<close> it is also the result of the
  whole JSON lookup of the option, found under the option's name.
\<close>

theorem flat_key_first:
  "map_of J nm = Some v \<Longrightarrow>
     lookupKeyInJson J nm = Inr v
     \<and> (\<forall>J'. map_of J' nm = Some v \<longrightarrow> lookupKeyInJson J' nm = lookupKeyInJson J nm)
     \<and> (\<forall>opt :: 'c config_option.
          name opt = nm \<and> v \<noteq> VNone \<longrightarrow> loadFromJson J opt = Inr (v, Some nm))"
  using loadFromJson_flat[of J _ v] by (auto simp add: lookupKeyInJson_flat)

text \<open>
  A document with both forms of \<^verbatim>\<open>llvm/build-type\<close>: the flat key wins, and the nested
  object is what the lookup finds once the flat key is taken away.
\<close>

theorem flat_key_first_witness:
  "CHR ''/'' \<in> set ''llvm/build-type''
   \<and> map_of llvm_json ''llvm/build-type'' = Some (VStr ''Release'')
   \<and> lookupKeyInJson llvm_json ''llvm/build-type'' = Inr (VStr ''Release'')
   \<and> lookupKeyInJson [hd llvm_json] ''llvm/build-type'' = Inr (VStr ''Debug'')"
proof -
  have flat: "map_of llvm_json ''llvm/build-type'' = Some (VStr ''Release'')"
    by (simp add: llvm_json_def)
  have nested: "lookupKeyInJson [hd llvm_json] ''llvm/build-type'' = Inr (VStr ''Debug'')"
    by (simp add: llvm_json_def lookupKeyInJson_def py_get_def)
  from flat_key_first[OF flat]
  have "lookupKeyInJson llvm_json ''llvm/build-type'' = Inr (VStr ''Release'')"
    by (rule conjunct1)
  with flat nested show ?thesis by simp
qed

section \<open>Properties of the boolean flags\<close>

subsection \<open>What the actions leave in the namespace\<close>

lemma namespace_defaults_dest:
  "opt \<in> set opts \<Longrightarrow> namespace_defaults opts (dest opt) = Some VNone"
proof -
  assume "opt \<in> set opts"
  then have "dest opt \<in> fst ` set (map (\<lambda>opt. (dest opt, action_default)) opts)"
    by force
  then obtain v where v: "map_of (map (\<lambda>opt. (dest opt, action_default)) opts) (dest opt) = Some v"
    by (metis domIff dom_map_of_conv_image_fst not_Some_eq)
  then have "(dest opt, v) \<in> set (map (\<lambda>opt. (dest opt, action_default)) opts)"
    by (rule map_of_SomeD)
  then have "v = VNone" by (auto simp add: action_default_def)
  with v show ?thesis by (simp add: namespace_defaults_def)
qed

lemma fold_untouched:
  "list_all (\<lambda>b. fst b \<noteq> d) acts \<Longrightarrow> fold run_action acts ns d = ns d"
  by (induction acts arbitrary: ns) (auto simp add: run_action_def)

text \<open>Actions among which only one, possibly repeated, stores into its attribute.\<close>

lemma fold_single:
  assumes "a \<in> set acts" and "list_all (\<lambda>b. fst b = fst a \<longrightarrow> b = a) acts"
  shows "fold run_action acts ns (fst a) = Some (snd a)"
  using assms
proof (induction acts arbitrary: ns rule: rev_induct)
  case Nil
  then show ?case by simp
next
  case (snoc b acts)
  show ?case
  proof (cases "b = a")
    case True
    then show ?thesis by (simp add: run_action_def)
  next
    case False
    with snoc.prems have "a \<in> set acts" "fst b \<noteq> fst a"
      "list_all (\<lambda>b. fst b = fst a \<longrightarrow> b = a) acts"
      by auto
    with snoc.IH[of ns] show ?thesis by (simp add: run_action_def)
  qed
qed

lemma namespace_after_unset:
  assumes "opt \<in> set opts" and "list_all (\<lambda>b. fst b \<noteq> dest opt) acts"
  shows "namespace_after opts acts (dest opt) = Some VNone"
  using assms by (simp add: namespace_after_def fold_untouched namespace_defaults_dest)

lemma namespace_after_single:
  assumes "a \<in> set acts" and "fst a = d" and "list_all (\<lambda>b. fst b = d \<longrightarrow> b = a) acts"
  shows "namespace_after opts acts d = Some (snd a)"
  using fold_single[of a acts "namespace_defaults opts"] assms
  by (auto simp add: namespace_after_def)

lemma registered_positive:
  assumes "distinct (map fst (registered_actions opt))"
    and "(''--'' @ name opt, a) \<in> set (registered_actions opt)"
  shows "a = store_true_action opt"
proof (cases "valueType opt = TBool")
  case False
  with assms(2) show ?thesis by (simp add: registered_actions_def)
next
  case True
  have first: "''--'' @ name opt \<in> set (option_strings opt)"
    by (simp add: option_strings_def)
  show ?thesis
  proof (rule ccontr)
    assume "a \<noteq> store_true_action opt"
    with assms(2) True have "''--'' @ name opt = ''--'' @ negatedName (name opt)"
      by (auto simp add: registered_actions_def)
    with first assms(1) True show False
      by (auto simp add: registered_actions_def comp_def)
  qed
qed

lemma registered_negative:
  assumes "distinct (map fst (registered_actions opt))"
    and "(''--'' @ negatedName (name opt), a) \<in> set (registered_actions opt)"
  shows "a = store_false_action opt"
proof (cases "valueType opt = TBool")
  case False
  with assms(2) show ?thesis by (simp add: registered_actions_def)
next
  case True
  show ?thesis
  proof (rule ccontr)
    assume "a \<noteq> store_false_action opt"
    with assms(2) True have "''--'' @ negatedName (name opt) \<in> set (option_strings opt)"
      by (auto simp add: registered_actions_def)
    with assms(1) True show False
      by (auto simp add: registered_actions_def comp_def)
  qed
qed

lemma loadOptionImpl_cmdline_only:
  assumes "option_class opt = CommandLineConfigOption"
    and "parsedArgs L = Some ns" and "ns (dest opt) = Some c"
  shows "loadOptionImpl L opt = Inr c"
  using assms by (simp add: loadOptionImpl_def loadFromCommandLine_def)

lemma convert_bool:
  "valueType opt = TBool \<Longrightarrow> convert_or_exit S opt (VBool b) = Inr (VBool b)"
  by (simp add: convert_or_exit_def convertType_def py_bool_def)

lemma loadOptionImpl_flag:
  assumes "option_class opt \<noteq> DefaultValueOnlyConfigOption"
    and "parsedArgs L = Some ns" and "ns (dest opt) = Some (VBool b)"
  shows "loadOptionImpl L opt = Inr (VBool b)"
  using assms
  by (cases "option_class opt") (simp_all add: loadOptionImpl_cmdline_only loadOptionImpl_cmdline)

lemmas flag_defs = registered_actions_def store_true_action_def store_false_action_def
  option_strings_def negatedName_def dest_def replace_char_def

subsection \<open>The flags of a boolean option whose default is false\<close>

text \<open>
  Claim C7. Let a boolean option with the literal default \<^verbatim>\<open>False\<close> be registered for the
  command line without a clash among its own option strings, and let the namespace be the
  one \<^verbatim>\<open>parse_known_args\<close> returns after the actions it ran. If none of these actions stores
  into the option's attribute (neither flag was passed) and neither the JSON file nor a
  fallback gives a value, the option resolves to \<^verbatim>\<open>False\<close>. If the action registered under
  \<^verbatim>\<open>--<name>\<close> was run and no other action stores into the attribute, it resolves to
  \<^verbatim>\<open>True\<close>; if it is the action registered under the negated flag, to \<^verbatim>\<open>False\<close>. In the
  last two cases nothing is assumed about the JSON document, so the flag overrides a JSON
  value of either polarity.
\<close>

theorem boolean_flags:
  assumes "valueType opt = TBool" and "default_value opt = Literal (VBool False)"
    and "option_class opt \<noteq> DefaultValueOnlyConfigOption"
    and "opt \<in> set opts" and "distinct (map fst (registered_actions opt))"
    and "parsedArgs L = Some (namespace_after opts acts)"
  shows
    "(list_all (\<lambda>b. fst b \<noteq> dest opt) acts \<and> fallback_name opt = None \<and>
      (option_class opt = CommandLineConfigOption \<or> loadFromJson (JSON L) opt = Inr (VNone, k))
        \<longrightarrow> loadOption S L cfg opt = Inr (VBool False))
     \<and> ((''--'' @ name opt, a) \<in> set (registered_actions opt) \<and> a \<in> set acts \<and>
        list_all (\<lambda>b. fst b = dest opt \<longrightarrow> b = a) acts
        \<longrightarrow> loadOption S L cfg opt = Inr (VBool True))
     \<and> ((''--'' @ negatedName (name opt), a') \<in> set (registered_actions opt) \<and> a' \<in> set acts \<and>
        list_all (\<lambda>b. fst b = dest opt \<longrightarrow> b = a') acts
        \<longrightarrow> loadOption S L cfg opt = Inr (VBool False))"
proof (intro conjI impI)
  assume a: "list_all (\<lambda>b. fst b \<noteq> dest opt) acts \<and> fallback_name opt = None \<and>
      (option_class opt = CommandLineConfigOption \<or> loadFromJson (JSON L) opt = Inr (VNone, k))"
  with assms have ns: "namespace_after opts acts (dest opt) = Some VNone"
    by (simp add: namespace_after_unset)
  have "loadOptionImpl L opt = Inr VNone"
  proof (cases "option_class opt")
    case DefaultValueOnlyConfigOption
    with assms show ?thesis by simp
  next
    case CommandLineConfigOption
    with assms ns show ?thesis by (simp add: loadOptionImpl_cmdline_only)
  next
    case JsonAndCommandLineConfigOption
    with a have "loadFromJson (JSON L) opt = Inr (VNone, k)" by simp
    with JsonAndCommandLineConfigOption assms(6) ns show ?thesis
      by (simp add: loadOptionImpl_json)
  qed
  with a assms show "loadOption S L cfg opt = Inr (VBool False)"
    by (simp add: loadOption_no_fallback getDefaultValue_def convert_bool)
next
  assume a: "(''--'' @ name opt, a) \<in> set (registered_actions opt) \<and> a \<in> set acts \<and>
        list_all (\<lambda>b. fst b = dest opt \<longrightarrow> b = a) acts"
  with assms(5) have eq: "a = store_true_action opt" by (simp add: registered_positive)
  with a namespace_after_single[of a acts "dest opt" opts]
  have "namespace_after opts acts (dest opt) = Some (VBool True)"
    by (simp add: store_true_action_def)
  with assms have "loadOptionImpl L opt = Inr (VBool True)"
    by (simp add: loadOptionImpl_flag)
  with assms show "loadOption S L cfg opt = Inr (VBool True)"
    by (simp add: loadOption_own convert_bool)
next
  assume a: "(''--'' @ negatedName (name opt), a') \<in> set (registered_actions opt) \<and> a' \<in> set acts \<and>
        list_all (\<lambda>b. fst b = dest opt \<longrightarrow> b = a') acts"
  with assms(5) have eq: "a' = store_false_action opt" by (simp add: registered_negative)
  with a namespace_after_single[of a' acts "dest opt" opts]
  have "namespace_after opts acts (dest opt) = Some (VBool False)"
    by (simp add: store_false_action_def)
  with assms have "loadOptionImpl L opt = Inr (VBool False)"
    by (simp add: loadOptionImpl_flag)
  with assms show "loadOption S L cfg opt = Inr (VBool False)"
    by (simp add: loadOption_own convert_bool)
qed

text \<open>
  The runs of \<^verbatim>\<open>test_skip_update\<close>, on the option \<^verbatim>\<open>qtbase/build-tests\<close>: another option's
  flag only; the flag against \<^verbatim>\<open>false\<close> in the file; the negated flag against \<^verbatim>\<open>true\<close>.
\<close>

theorem boolean_flags_witness:
  "distinct (map fst (registered_actions qtbase_build_tests))
   \<and> registered_actions qtbase_build_tests
       = [(''--qtbase/build-tests'', store_true_action qtbase_build_tests),
          (''--qtbase/no-build-tests'', store_false_action qtbase_build_tests)]
   \<and> loadFromJson [] qtbase_build_tests = Inr (VNone, None)
   \<and> loadOption example_sys (qtbase_loader [store_true_action qtbase_mips_build_tests] []) ()
        qtbase_build_tests = Inr (VBool False)
   \<and> loadOption example_sys
        (qtbase_loader [store_true_action qtbase_build_tests] [(''qtbase/build-tests'', VBool False)]) ()
        qtbase_build_tests = Inr (VBool True)
   \<and> loadOption example_sys
        (qtbase_loader [store_false_action qtbase_build_tests] [(''qtbase/build-tests'', VBool True)]) ()
        qtbase_build_tests = Inr (VBool False)"
proof -
  have ty: "valueType qtbase_build_tests = TBool"
    and dflt: "default_value qtbase_build_tests = Literal (VBool False)"
    and cls: "option_class qtbase_build_tests \<noteq> DefaultValueOnlyConfigOption"
    and mem: "qtbase_build_tests \<in> set qtbase_registry"
    and nofb: "fallback_name qtbase_build_tests = None"
    by (simp_all add: qtbase_defs)
  have acts: "registered_actions qtbase_build_tests
       = [(''--qtbase/build-tests'', store_true_action qtbase_build_tests),
          (''--qtbase/no-build-tests'', store_false_action qtbase_build_tests)]"
    by (simp add: qtbase_defs flag_defs)
  then have reg: "distinct (map fst (registered_actions qtbase_build_tests))"
    by simp
  have args: "\<And>acts json. parsedArgs (qtbase_loader acts json) = Some (namespace_after qtbase_registry acts)"
    by (simp add: qtbase_loader_def)
  have other: "list_all (\<lambda>b. fst b \<noteq> dest qtbase_build_tests) [store_true_action qtbase_mips_build_tests]"
    by (simp add: qtbase_defs flag_defs)
  have json: "loadFromJson [] qtbase_build_tests = Inr (VNone, None)"
    by (simp add: qtbase_defs json_defs option_strings_def dest_def)
  have pos: "(''--'' @ name qtbase_build_tests, store_true_action qtbase_build_tests)
               \<in> set (registered_actions qtbase_build_tests)"
    by (simp add: acts) (simp add: qtbase_defs)
  have neg: "(''--'' @ negatedName (name qtbase_build_tests), store_false_action qtbase_build_tests)
               \<in> set (registered_actions qtbase_build_tests)"
    by (simp add: acts) (simp add: qtbase_defs negatedName_def)
  have r1: "loadOption example_sys (qtbase_loader [store_true_action qtbase_mips_build_tests] []) ()
        qtbase_build_tests = Inr (VBool False)"
    using boolean_flags[OF ty dflt cls mem reg args[of "[store_true_action qtbase_mips_build_tests]" "[]"],
        where k = None and S = example_sys and cfg = "()"]
      other nofb json by (simp add: qtbase_loader_def)
  have r2: "loadOption example_sys
        (qtbase_loader [store_true_action qtbase_build_tests] [(''qtbase/build-tests'', VBool False)]) ()
        qtbase_build_tests = Inr (VBool True)"
    using boolean_flags[OF ty dflt cls mem reg
        args[of "[store_true_action qtbase_build_tests]" "[(''qtbase/build-tests'', VBool False)]"],
        where a = "store_true_action qtbase_build_tests" and S = example_sys and cfg = "()"] pos
    by simp
  have r3: "loadOption example_sys
        (qtbase_loader [store_false_action qtbase_build_tests] [(''qtbase/build-tests'', VBool True)]) ()
        qtbase_build_tests = Inr (VBool False)"
    using boolean_flags[OF ty dflt cls mem reg
        args[of "[store_false_action qtbase_build_tests]" "[(''qtbase/build-tests'', VBool True)]"],
        where a' = "store_false_action qtbase_build_tests" and S = example_sys and cfg = "()"] neg
    by simp
  from reg acts json r1 r2 r3 show ?thesis by simp
qed

section \<open>Properties of the JSON loader\<close>

subsection \<open>The pairs hook and the decoder\<close>

lemma duplicates_empty: "duplicates ks = [] \<longleftrightarrow> distinct ks"
  by (induction ks) auto

lemma count_list_pos: "Suc 0 \<le> count_list ks a \<longleftrightarrow> a \<in> set ks"
  by (induction ks) auto

lemma duplicates_twice: "k \<in> set (duplicates ks) \<longleftrightarrow> 2 \<le> count_list ks k"
  by (induction ks) (auto simp add: count_list_pos)

lemma loop_ok:
  "distinct (map fst pairs) \<Longrightarrow> set (map fst d) \<inter> set (map fst pairs) = {} \<Longrightarrow>
     raise_on_duplicates_loop d pairs = Inr (d @ pairs)"
proof (induction pairs arbitrary: d)
  case Nil
  then show ?case by simp
next
  case (Cons kv pairs)
  obtain k v where kv: "kv = (k, v)" by (cases kv)
  with Cons.prems have "k \<notin> set (map fst d)" by auto
  moreover from Cons.prems kv have "set (map fst (d @ [(k, v)])) \<inter> set (map fst pairs) = {}"
    by auto
  moreover from Cons.prems have "distinct (map fst pairs)" by simp
  ultimately show ?case using Cons.IH[of "d @ [(k, v)]"] kv by simp
qed

lemma loop_raises:
  "\<not> (distinct (map fst pairs) \<and> set (map fst d) \<inter> set (map fst pairs) = {}) \<Longrightarrow>
     \<exists>k. raise_on_duplicates_loop d pairs = Inl (SyntaxError k) \<and>
         (k \<in> set (map fst d) \<inter> set (map fst pairs) \<or> k \<in> set (duplicates (map fst pairs)))"
proof (induction pairs arbitrary: d)
  case Nil
  then show ?case by simp
next
  case (Cons kv pairs)
  obtain k v where kv: "kv = (k, v)" by (cases kv)
  show ?case
  proof (cases "k \<in> set (map fst d)")
    case True
    with kv show ?thesis by auto
  next
    case False
    with Cons.prems kv
    have "\<not> (distinct (map fst pairs) \<and> set (map fst (d @ [(k, v)])) \<inter> set (map fst pairs) = {})"
      by auto
    from Cons.IH[OF this] obtain k' where
      k': "raise_on_duplicates_loop (d @ [(k, v)]) pairs = Inl (SyntaxError k')"
        "k' \<in> set (map fst (d @ [(k, v)])) \<inter> set (map fst pairs) \<or> k' \<in> set (duplicates (map fst pairs))"
      by blast
    from k'(2) have "k' \<in> set (map fst d) \<inter> set (map fst (kv # pairs)) \<or>
        k' \<in> set (duplicates (map fst (kv # pairs)))"
      using kv by auto
    with k'(1) False kv show ?thesis by auto
  qed
qed

lemma dict_ok:
  "distinct (map fst pairs) \<Longrightarrow> dict_raise_on_duplicates pairs = Inr pairs"
  using loop_ok[of pairs "[]"] by (simp add: dict_raise_on_duplicates_def)

lemma dict_raises:
  "\<not> distinct (map fst pairs) \<Longrightarrow>
     \<exists>k. dict_raise_on_duplicates pairs = Inl (SyntaxError k) \<and> k \<in> set (duplicates (map fst pairs))"
  using loop_raises[of pairs "[]"] by (simp add: dict_raise_on_duplicates_def)

lemma dict_distinct:
  "dict_raise_on_duplicates pairs = Inr d \<Longrightarrow> d = pairs \<and> distinct (map fst d)"
  using dict_ok[of pairs] dict_raises[of pairs] by (cases "distinct (map fst pairs)") auto

text \<open>The decoder succeeds exactly on the trees without a repeated key, and names one otherwise.\<close>

lemma json_decode_keys_twice:
  "(keys_twice t = [] \<longrightarrow> (\<exists>v. json_decode t = Inr v)) \<and>
   (keys_twice t \<noteq> [] \<longrightarrow> (\<exists>k. json_decode t = Inl (SyntaxError k) \<and> k \<in> set (keys_twice t)))"
  "(keys_twice_list ts = [] \<longrightarrow> (\<exists>vs. json_decode_list ts = Inr vs)) \<and>
   (keys_twice_list ts \<noteq> [] \<longrightarrow>
      (\<exists>k. json_decode_list ts = Inl (SyntaxError k) \<and> k \<in> set (keys_twice_list ts)))"
  "(keys_twice_pairs kvs = [] \<longrightarrow>
      (\<exists>ps. json_decode_pairs kvs = Inr ps \<and> map fst ps = map fst kvs)) \<and>
   (keys_twice_pairs kvs \<noteq> [] \<longrightarrow>
      (\<exists>k. json_decode_pairs kvs = Inl (SyntaxError k) \<and> k \<in> set (keys_twice_pairs kvs)))"
proof (induction t and ts and kvs rule: json_decode_json_decode_list_json_decode_pairs.induct)
  case (6 kvs)
  show ?case
  proof (cases "keys_twice_pairs kvs = []")
    case False
    with 6 show ?thesis by auto
  next
    case True
    with 6 obtain ps where ps: "json_decode_pairs kvs = Inr ps" "map fst ps = map fst kvs"
      by auto
    show ?thesis
    proof (cases "distinct (map fst kvs)")
      case d: True
      with ps True show ?thesis by (simp add: dict_ok duplicates_empty)
    next
      case d: False
      with ps dict_raises[of ps] obtain k where
        "dict_raise_on_duplicates ps = Inl (SyntaxError k)" "k \<in> set (duplicates (map fst kvs))"
        by auto
      with ps True d show ?thesis by (auto simp add: duplicates_empty)
    qed
  qed
next
  case (8 x xs)
  then show ?case by (cases "keys_twice x = []") auto
next
  case (10 kv kvs)
  then show ?case by (cases "keys_twice (snd kv) = []") auto
qed auto


subsection \<open>Loading one file\<close>

lemma load_json_with_comments_tree:
  assumes "files S p = Some lines" and "json_grammar S (json_text lines) = Some tree"
  shows "load_json_with_comments S p = json_decode tree"
  using assms by (simp add: load_json_with_comments_def json_text_def)

lemma load_json_with_includes_raise:
  assumes "load_json_with_comments S p = Inl e" and "\<not> continue_anyway S p"
  shows "load_json_with_includes S (Suc depth) p = Inl e"
  using assms by simp

lemma load_json_with_includes_continue:
  assumes "load_json_with_comments S p = Inl e" and "continue_anyway S p"
  shows "load_json_with_includes S (Suc depth) p = Inr []"
  using assms by (simp add: py_bool_def)

lemma not_tty_raises: "\<not> stdin_isatty S \<Longrightarrow> \<not> continue_anyway S p"
  by (simp add: continue_anyway_def)

lemma keys_twice_top:
  "2 \<le> count_list (map fst kvs) k \<Longrightarrow> k \<in> set (keys_twice (JObject kvs))"
  by (simp add: duplicates_twice)

lemmas file_defs = include_sys_def example_sys_def example_grammar_def common_128_def config_256_def
  config_bad_path_def config_two_includes_def json_text_def startswith_def strip_def is_space_def

subsection \<open>A key twice in one object\<close>

text \<open>
  Claim C5. If some object of a config file, at any depth, holds a key twice, parsing the
  file raises the \<^verbatim>\<open>SyntaxError\<close> of the pairs hook, and the key it names is one that an
  object of the file holds twice; no dict is built, so neither value of the key is kept.
  The error leaves the loader unless the user of a terminal answers the prompt with
  \<^verbatim>\<open>y\<close>, and then the file counts as empty. A second \<^verbatim>\<open>#include\<close> key is such a repeated key
  (\<open>keys_twice_top\<close>).
\<close>

theorem duplicate_key_raises:
  assumes "files S p = Some lines" and "json_grammar S (json_text lines) = Some tree"
    and "keys_twice tree \<noteq> []"
  shows "\<exists>k. k \<in> set (keys_twice tree)
           \<and> load_json_with_comments S p = Inl (SyntaxError k)
           \<and> (\<not> continue_anyway S p \<longrightarrow>
                load_json_with_includes S (Suc depth) p = Inl (SyntaxError k))
           \<and> (continue_anyway S p \<longrightarrow> load_json_with_includes S (Suc depth) p = Inr [])"
proof -
  from json_decode_keys_twice(1)[of tree] assms(3) obtain k where
    k: "json_decode tree = Inl (SyntaxError k)" "k \<in> set (keys_twice tree)"
    by blast
  with assms have "load_json_with_comments S p = Inl (SyntaxError k)"
    by (simp add: load_json_with_comments_tree)
  with k show ?thesis
    using load_json_with_includes_raise[of S p "SyntaxError k" depth]
      load_json_with_includes_continue[of S p "SyntaxError k" depth]
    by blast
qed

text \<open>The file with two \<^verbatim>\<open>#include\<close> keys of the test, read without a terminal.\<close>

theorem duplicate_key_raises_witness:
  "files include_sys (''/'', [''cfg'', ''twice.json'']) = Some config_two_includes
   \<and> json_grammar include_sys (json_text config_two_includes)
       = Some (JObject [(''#include'', JString ''128-common.json''), (''foo'', JString ''bar''),
                        (''#include'', JString ''256-common.json'')])
   \<and> keys_twice (JObject [(''#include'', JString ''128-common.json''), (''foo'', JString ''bar''),
                         (''#include'', JString ''256-common.json'')]) = [''#include'']
   \<and> \<not> continue_anyway include_sys (''/'', [''cfg'', ''twice.json''])
   \<and> load_json_with_comments include_sys (''/'', [''cfg'', ''twice.json''])
       = Inl (SyntaxError ''#include'')
   \<and> load_json_with_includes include_sys (Suc 0) (''/'', [''cfg'', ''twice.json''])
       = Inl (SyntaxError ''#include'')"
proof -
  let ?tree = "JObject [(''#include'', JString ''128-common.json''), (''foo'', JString ''bar''),
                        (''#include'', JString ''256-common.json'')]"
  let ?p = "(''/'', [''cfg'', ''twice.json''])"
  have f: "files include_sys ?p = Some config_two_includes"
    by (simp add: include_sys_def)
  have g: "json_grammar include_sys (json_text config_two_includes) = Some ?tree"
    by (simp add: file_defs)
  have twice: "keys_twice ?tree = [''#include'']"
    by simp
  then have ne: "keys_twice ?tree \<noteq> []"
    by simp
  have tty: "\<not> continue_anyway include_sys ?p"
    by (simp add: continue_anyway_def include_sys_def example_sys_def)
  from duplicate_key_raises[OF f g ne, of 0] twice tty
  have "load_json_with_comments include_sys ?p = Inl (SyntaxError ''#include'')
      \<and> load_json_with_includes include_sys (Suc 0) ?p = Inl (SyntaxError ''#include'')"
    by auto
  with f g twice tty show ?thesis by simp
qed

subsection \<open>An include that names a missing file\<close>

lemma load_json_with_includes_missing:
  assumes "files S q = None"
  shows "load_json_with_includes S (Suc depth) q =
           (if continue_anyway S q then Inr [] else Inl (FileNotFoundError q))"
  using assms by (simp add: load_json_with_comments_def py_bool_def)

lemma load_json_with_includes_include:
  assumes "load_json_with_comments S p = Inr (VDict doc)"
    and "map_of doc ''#include'' = Some (VStr inc)" and "inc \<noteq> []"
  shows "load_json_with_includes S (Suc depth) p =
           (case load_json_with_includes S depth (path_join (path_parent p) inc) of
              Inl e \<Rightarrow> Inl e
            | Inr base_json \<Rightarrow> Inr (dict_update base_json doc))"
  using assms by (simp add: py_bool_def)

text \<open>
  Claim C6. Let a config file parse to an object whose \<^verbatim>\<open>#include\<close> key names, relative to
  the directory of the file, a file that does not exist. Without a terminal on standard
  input the load fails with the \<^verbatim>\<open>FileNotFoundError\<close> of that file. In every context it
  fails with this error unless the user answers the prompt about the missing file with
  \<^verbatim>\<open>y\<close>: a load that succeeds was confirmed by the user, so the missing include is never
  passed over silently.
\<close>

theorem missing_include_raises:
  assumes "load_json_with_comments S p = Inr (VDict doc)"
    and "map_of doc ''#include'' = Some (VStr inc)" and "inc \<noteq> []"
    and "files S (path_join (path_parent p) inc) = None"
  shows "(\<not> stdin_isatty S \<longrightarrow>
            load_json_with_includes S (Suc (Suc depth)) p
              = Inl (FileNotFoundError (path_join (path_parent p) inc)))
         \<and> (\<not> continue_anyway S (path_join (path_parent p) inc) \<longrightarrow>
            load_json_with_includes S (Suc (Suc depth)) p
              = Inl (FileNotFoundError (path_join (path_parent p) inc)))
         \<and> (\<forall>r. load_json_with_includes S (Suc (Suc depth)) p = Inr r \<longrightarrow>
              continue_anyway S (path_join (path_parent p) inc))"
proof -
  let ?q = "path_join (path_parent p) inc"
  have "load_json_with_includes S (Suc (Suc depth)) p =
          (if continue_anyway S ?q then Inr (dict_update [] doc) else Inl (FileNotFoundError ?q))"
    using load_json_with_includes_include[OF assms(1-3), of "Suc depth"]
      load_json_with_includes_missing[OF assms(4), of depth]
    by simp
  then show ?thesis by (auto simp add: not_tty_raises)
qed

text \<open>The file of the test that includes \<^verbatim>\<open>bad-path.json\<close>.\<close>

theorem missing_include_raises_witness:
  "load_json_with_comments include_sys (''/'', [''cfg'', ''bad.json''])
     = Inr (VDict [(''#include'', VStr ''bad-path.json'')])
   \<and> path_join (path_parent (''/'', [''cfg'', ''bad.json''])) ''bad-path.json''
       = (''/'', [''cfg'', ''bad-path.json''])
   \<and> files include_sys (''/'', [''cfg'', ''bad-path.json'']) = None
   \<and> \<not> stdin_isatty include_sys
   \<and> load_json_with_includes include_sys (Suc (Suc 0)) (''/'', [''cfg'', ''bad.json''])
       = Inl (FileNotFoundError (''/'', [''cfg'', ''bad-path.json'']))"
proof -
  let ?p = "(''/'', [''cfg'', ''bad.json''])"
  have doc: "load_json_with_comments include_sys ?p = Inr (VDict [(''#include'', VStr ''bad-path.json'')])"
    by (simp add: file_defs load_json_with_comments_def dict_raise_on_duplicates_def)
  have inc: "map_of [(''#include'', VStr ''bad-path.json'')] ''#include'' = Some (VStr ''bad-path.json'')"
    and ne: "''bad-path.json'' \<noteq> []"
    by simp_all
  have q: "path_join (path_parent ?p) ''bad-path.json'' = (''/'', [''cfg'', ''bad-path.json''])"
    by (simp add: path_join_def path_parent_def Path_def splitroot_def path_components_def)
  have missing: "files include_sys (path_join (path_parent ?p) ''bad-path.json'') = None"
    by (simp add: q include_sys_def)
  have tty: "\<not> stdin_isatty include_sys"
    by (simp add: include_sys_def example_sys_def)
  from missing_include_raises[OF doc inc ne missing, of 0] tty
  have "load_json_with_includes include_sys (Suc (Suc 0)) ?p
          = Inl (FileNotFoundError (path_join (path_parent ?p) ''bad-path.json''))"
    by blast
  with doc q missing tty show ?thesis by simp
qed

subsection \<open>The dict operations of the include\<close>

lemma map_of_replace_other:
  "x \<noteq> k \<Longrightarrow> map_of (map (\<lambda>kv. if fst kv = k then (k, v) else kv) d) x = map_of d x"
  by (induction d) auto

lemma map_of_replace_same:
  "k \<in> set (map fst d) \<Longrightarrow> map_of (map (\<lambda>kv. if fst kv = k then (k, v) else kv) d) k = Some v"
  by (induction d) auto

lemma map_of_dict_setitem: "map_of (dict_setitem d k v) = (map_of d)(k \<mapsto> v)"
proof (cases "k \<in> set (map fst d)")
  case False
  then have "map_of d k = None" by (simp add: map_of_eq_None_iff)
  with False show ?thesis
    by (auto simp add: dict_setitem_def map_add_def fun_eq_iff split: option.splits)
next
  case True
  show ?thesis
  proof
    fix x
    show "map_of (dict_setitem d k v) x = ((map_of d)(k \<mapsto> v)) x"
      using True map_of_replace_same[OF True, of v] map_of_replace_other[of x k v d]
      by (cases "x = k") (simp_all add: dict_setitem_def)
  qed
qed

lemma map_of_dict_update:
  "distinct (map fst other) \<Longrightarrow> map_of (dict_update base other) = map_of base ++ map_of other"
proof (induction other arbitrary: base)
  case Nil
  then show ?case by (simp add: dict_update_def)
next
  case (Cons kv other)
  obtain k v where kv: "kv = (k, v)" by (cases kv)
  with Cons.prems have notin: "map_of other k = None"
    by (simp add: map_of_eq_None_iff)
  have "dict_update base (kv # other) = dict_update (dict_setitem base k v) other"
    by (simp add: dict_update_def kv)
  with Cons have "map_of (dict_update base (kv # other)) = (map_of base)(k \<mapsto> v) ++ map_of other"
    by (simp add: map_of_dict_setitem)
  also have "\<dots> = map_of base ++ map_of (kv # other)"
    using notin kv by (auto simp add: fun_eq_iff map_add_def split: option.splits)
  finally show ?case .
qed

lemma load_json_with_comments_distinct:
  assumes "load_json_with_comments S p = Inr (VDict doc)"
  shows "distinct (map fst doc)"
proof -
  from assms obtain tree where tree: "json_decode tree = Inr (VDict doc)"
    by (auto simp add: load_json_with_comments_def split: option.splits)
  then show ?thesis
    by (cases tree) (auto split: sum.splits dest: dict_distinct)
qed


lemma map_of_reordered:
  assumes "distinct (map fst xs)" and "distinct (map fst ys)" and "set xs = set ys"
  shows "map_of xs = map_of ys"
  using assms by (rule map_of_inject_set[THEN iffD2])

subsection \<open>The including file is laid over the included one\<close>

text \<open>
  Claim C4. Let a config file parse to an object whose \<^verbatim>\<open>#include\<close> key holds a non-empty
  string. The file named by it, relative to the directory of the including file, is loaded
  by the same function, its own include resolved, and the result of the load is that
  document updated with every key of the including one: a key of the including document
  has the including document's value, any other key the included document's. The mapping
  is the same for every order in which the keys of the including file are written.
\<close>

theorem include_overlay:
  assumes "load_json_with_comments S p = Inr (VDict doc)"
    and "map_of doc ''#include'' = Some (VStr inc)" and "inc \<noteq> []"
    and "load_json_with_includes S depth (path_join (path_parent p) inc) = Inr base"
  shows "load_json_with_includes S (Suc depth) p = Inr (dict_update base doc)
         \<and> (\<forall>k. map_of (dict_update base doc) k =
                  (case map_of doc k of Some v \<Rightarrow> Some v | None \<Rightarrow> map_of base k))
         \<and> (\<forall>doc'. distinct (map fst doc') \<and> set doc' = set doc \<longrightarrow>
                  map_of (dict_update base doc') = map_of (dict_update base doc))"
proof -
  have d: "distinct (map fst doc)"
    using assms(1) by (rule load_json_with_comments_distinct)
  have "load_json_with_includes S (Suc depth) p = Inr (dict_update base doc)"
    using load_json_with_includes_include[OF assms(1-3), of depth] assms(4) by simp
  moreover have "\<forall>k. map_of (dict_update base doc) k =
                  (case map_of doc k of Some v \<Rightarrow> Some v | None \<Rightarrow> map_of base k)"
    by (simp add: map_of_dict_update[OF d] map_add_def)
  moreover have "\<forall>doc'. distinct (map fst doc') \<and> set doc' = set doc \<longrightarrow>
                  map_of (dict_update base doc') = map_of (dict_update base doc)"
  proof (intro allI impI)
    fix doc' assume a: "distinct (map fst doc') \<and> set doc' = set doc"
    with d have "map_of doc' = map_of doc" by (intro map_of_reordered) simp_all
    with a d show "map_of (dict_update base doc') = map_of (dict_update base doc)"
      by (simp add: map_of_dict_update)
  qed
  ultimately show ?thesis by blast
qed

text \<open>
  \<^verbatim>\<open>{ "cheri-bits": 256, "#include": "128-common.json"}\<close> over a base file with
  \<^verbatim>\<open>cheri-bits\<close> 128 gives 256, also with the two keys in the other order.
\<close>

theorem include_overlay_witness:
  "load_json_with_comments include_sys (''/'', [''cfg'', ''config.json''])
     = Inr (VDict [(''cheri-bits'', VInt 256), (''#include'', VStr ''128-common.json'')])
   \<and> path_join (path_parent (''/'', [''cfg'', ''config.json''])) ''128-common.json''
       = (''/'', [''cfg'', ''128-common.json''])
   \<and> load_json_with_includes include_sys (Suc 0) (''/'', [''cfg'', ''128-common.json''])
       = Inr [(''cheri-bits'', VInt 128)]
   \<and> load_json_with_includes include_sys (Suc (Suc 0)) (''/'', [''cfg'', ''config.json''])
       = Inr [(''cheri-bits'', VInt 256), (''#include'', VStr ''128-common.json'')]
   \<and> map_of (dict_update [(''cheri-bits'', VInt 128)]
               [(''#include'', VStr ''128-common.json''), (''cheri-bits'', VInt 256)]) ''cheri-bits''
       = Some (VInt 256)"
proof -
  let ?p = "(''/'', [''cfg'', ''config.json''])"
  let ?doc = "[(''cheri-bits'', VInt 256), (''#include'', VStr ''128-common.json'')]"
  have doc: "load_json_with_comments include_sys ?p = Inr (VDict ?doc)"
    by (simp add: file_defs load_json_with_comments_def dict_raise_on_duplicates_def)
  have inc: "map_of ?doc ''#include'' = Some (VStr ''128-common.json'')"
    and ne: "''128-common.json'' \<noteq> []"
    by simp_all
  have q: "path_join (path_parent ?p) ''128-common.json'' = (''/'', [''cfg'', ''128-common.json''])"
    by (simp add: path_join_def path_parent_def Path_def splitroot_def path_components_def)
  have base: "load_json_with_includes include_sys (Suc 0) (''/'', [''cfg'', ''128-common.json''])
                = Inr [(''cheri-bits'', VInt 128)]"
    by (simp add: file_defs load_json_with_comments_def dict_raise_on_duplicates_def py_bool_def)
  then have base': "load_json_with_includes include_sys (Suc 0)
                (path_join (path_parent ?p) ''128-common.json'') = Inr [(''cheri-bits'', VInt 128)]"
    by (simp add: q)
  note ov = include_overlay[OF doc inc ne base']
  have upd: "dict_update [(''cheri-bits'', VInt 128)] ?doc = ?doc"
    by (simp add: dict_update_def dict_setitem_def)
  from ov upd have whole: "load_json_with_includes include_sys (Suc (Suc 0)) ?p = Inr ?doc"
    by simp
  have "distinct (map fst [(''#include'', VStr ''128-common.json''), (''cheri-bits'', VInt 256)])
      \<and> set [(''#include'', VStr ''128-common.json''), (''cheri-bits'', VInt 256)] = set ?doc"
    by (simp add: insert_commute)
  with ov have "map_of (dict_update [(''cheri-bits'', VInt 128)]
               [(''#include'', VStr ''128-common.json''), (''cheri-bits'', VInt 256)])
       = map_of (dict_update [(''cheri-bits'', VInt 128)] ?doc)"
    by blast
  then have swapped: "map_of (dict_update [(''cheri-bits'', VInt 128)]
               [(''#include'', VStr ''128-common.json''), (''cheri-bits'', VInt 256)]) ''cheri-bits''
       = Some (VInt 256)"
    by (simp add: upd)
  from doc q base whole swapped show ?thesis by simp
qed

section \<open>Properties of value coercion\<close>

subsection \<open>Strings for integer and boolean options\<close>

lemma parse_digits_chars:
  "parse_digits ds acc = Some r \<Longrightarrow> \<forall>c\<in>set ds. is_digit c \<or> c = CHR ''_''"
  by (induction ds acc rule: parse_digits.induct) (auto split: if_splits)

lemma parse_unsigned_chars:
  "parse_unsigned s = Some r \<Longrightarrow> \<forall>c\<in>set s. is_digit c \<or> c = CHR ''_''"
  by (cases s) (auto simp add: parse_unsigned_def split: if_splits dest: parse_digits_chars)

lemma in_dropWhile: "x \<in> set xs \<Longrightarrow> \<not> P x \<Longrightarrow> x \<in> set (dropWhile P xs)"
  by (induction xs) auto

lemma in_int_strip: "c \<in> set s \<Longrightarrow> \<not> is_int_space c \<Longrightarrow> c \<in> set (int_strip s)"
  by (simp add: int_strip_def in_dropWhile)

lemma int_of_string_unlimited:
  "int_of_string lim s = Some r \<Longrightarrow> int_of_string 0 s = Some r"
  by (auto simp add: int_of_string_def Let_def split: if_splits)

lemma int_of_string_chars:
  assumes "int_of_string lim s = Some r" and "c \<in> set s" and "\<not> is_int_space c"
  shows "is_digit c \<or> c = CHR ''_'' \<or> c = CHR ''-'' \<or> c = CHR ''+''"
proof -
  from assms(1) have r: "int_of_string 0 s = Some r"
    by (rule int_of_string_unlimited)
  from assms have c: "c \<in> set (int_strip s)" by (simp add: in_int_strip)
  from r obtain x xs where xs: "int_strip s = x # xs"
    by (cases "int_strip s") (auto simp add: int_of_string_def)
  show ?thesis
  proof (cases "x = CHR ''-'' \<or> x = CHR ''+''")
    case True
    with r xs obtain r' where "parse_unsigned xs = Some r'"
      by (auto simp add: int_of_string_def split: if_splits)
    from parse_unsigned_chars[OF this] c xs True show ?thesis by auto
  next
    case False
    with r xs have "parse_unsigned (x # xs) = Some r"
      by (auto simp add: int_of_string_def)
    from parse_unsigned_chars[OF this] c xs show ?thesis by auto
  qed
qed

text \<open>A string with a letter in it is no numeral.\<close>

lemma int_of_string_alpha:
  assumes "c \<in> set s" and "is_alpha c"
  shows "int_of_string lim s = None"
proof (rule ccontr)
  assume "int_of_string lim s \<noteq> None"
  then obtain r where r: "int_of_string lim s = Some r" by auto
  from assms(2) have "\<not> is_int_space c" "\<not> is_digit c" "c \<noteq> CHR ''_''" "c \<noteq> CHR ''-''" "c \<noteq> CHR ''+''"
    by (auto simp add: is_alpha_def is_int_space_def is_digit_def)
  with int_of_string_chars[OF r assms(1)] show False by blast
qed

lemma convert_int_string:
  assumes "valueType opt = TInt" and "int_of_string (int_max_str_digits S) s = None"
  shows "convertType S opt (VStr s) = Inl (ValueError s)"
  using assms by (simp add: convertType_def py_int_def)

text \<open>The exit after a string that is no numeral, whatever \<^verbatim>\<open>fatalError\<close> does.\<close>

lemma convert_or_exit_int_string:
  assumes "valueType opt = TInt" and "int_of_string (int_max_str_digits S) s = None"
  shows "convert_or_exit S opt (VStr s) =
           Inl (SystemExit (case fatalError_exit S of Some st \<Rightarrow> st | None \<Rightarrow> 0)
                  (name opt) (VStr s))"
  using convert_int_string[OF assms] by (simp add: convert_or_exit_def)

lemma convert_bool_string:
  assumes "valueType opt = TBool"
  shows "convertType S opt (VStr s) = Inr (VBool (s \<noteq> []))"
  using assms by (simp add: convertType_def py_bool_def)

text \<open>
  For a boolean option a string is never refused: \<^verbatim>\<open>bool\<close> of a non-empty string is
  \<^verbatim>\<open>True\<close>, so \<^verbatim>\<open>"maybe"\<close> and even \<^verbatim>\<open>"false"\<close> in the JSON file switch the option on.
\<close>

theorem bool_string_counterexample:
  "convertType example_sys qtbase_build_tests (VStr ''maybe'') = Inr (VBool True)
   \<and> convertType example_sys qtbase_build_tests (VStr ''false'') = Inr (VBool True)
   \<and> loadOption example_sys (qtbase_loader [] [(''qtbase/build-tests'', VStr ''maybe'')]) ()
        qtbase_build_tests = Inr (VBool True)"
  by (simp add: qtbase_defs cmdline_defs json_defs convert_defs loadOption_def
      loadOptionImpl_def loadFromCommandLine_def)

text \<open>
  Claim C9, as the code has it. For an option of type \<^verbatim>\<open>int\<close>, a string that \<^verbatim>\<open>int()\<close> does
  not read as a numeral makes the conversion raise \<^verbatim>\<open>ValueError\<close>; \<open>loadOption\<close> catches
  it and reports the name of the option and the value through \<^verbatim>\<open>fatalError\<close>, and with
  \<^verbatim>\<open>fatalError\<close> as the spec has it the process exits with a status other than 0 instead of
  the exception leaving the loader. For an option of type \<^verbatim>\<open>bool\<close> no string raises: the
  result is \<^verbatim>\<open>True\<close> exactly for a non-empty string.
\<close>

theorem invalid_int_exits:
  assumes "valueType opt = TInt" and "int_of_string (int_max_str_digits S) s = None"
    and "fatalError_as_specified S"
  shows "convertType S opt (VStr s) = Inl (ValueError s)
         \<and> (\<exists>st. st \<noteq> 0
               \<and> convert_or_exit S opt (VStr s) = Inl (SystemExit st (name opt) (VStr s))
               \<and> (\<forall>L cfg. loadOptionImpl L opt = Inr (VStr s) \<longrightarrow>
                     loadOption S L cfg opt = Inl (SystemExit st (name opt) (VStr s))))
         \<and> (\<forall>bopt :: 'c config_option. \<forall>t. valueType bopt = TBool \<longrightarrow>
               convertType S bopt (VStr t) = Inr (VBool (t \<noteq> [])))"
proof -
  from assms(3) obtain st where st: "fatalError_exit S = Some st" "st \<noteq> 0"
    by (auto simp add: fatalError_as_specified_def split: option.splits)
  have c: "convertType S opt (VStr s) = Inl (ValueError s)"
    using assms(1,2) by (rule convert_int_string)
  have e: "convert_or_exit S opt (VStr s) = Inl (SystemExit st (name opt) (VStr s))"
    using convert_or_exit_int_string[OF assms(1,2)] st by simp
  have "\<forall>L cfg. loadOptionImpl L opt = Inr (VStr s) \<longrightarrow>
               loadOption S L cfg opt = convert_or_exit S opt (VStr s)"
    by (simp add: loadOption_own)
  with e have l: "\<forall>L cfg. loadOptionImpl L opt = Inr (VStr s) \<longrightarrow>
               loadOption S L cfg opt = Inl (SystemExit st (name opt) (VStr s))"
    by simp
  from st(2) e l have "\<exists>st. st \<noteq> 0
               \<and> convert_or_exit S opt (VStr s) = Inl (SystemExit st (name opt) (VStr s))
               \<and> (\<forall>L cfg. loadOptionImpl L opt = Inr (VStr s) \<longrightarrow>
                     loadOption S L cfg opt = Inl (SystemExit st (name opt) (VStr s)))"
    by blast
  with c show ?thesis by (simp add: convert_bool_string)
qed

text \<open>
  \<^verbatim>\<open>--make-jobs four\<close> ends the run with the status 3 of this environment's \<^verbatim>\<open>fatalError\<close>;
  \<^verbatim>\<open>--make-jobs 12\<close> is 12, also behind a no-break space.
\<close>

lemmas int_defs = py_int_def int_of_string_def int_strip_def is_int_space_def parse_unsigned_def
  is_digit_def digit_val_def

theorem invalid_int_exits_witness:
  "int_of_string (int_max_str_digits example_sys) ''four'' = None
   \<and> fatalError_as_specified example_sys
   \<and> loadOptionImpl \<lparr>options = [''make-jobs'' \<mapsto> make_jobs],
                      parsedArgs = Some [''make_jobs'' \<mapsto> VStr ''four''], JSON = []\<rparr> make_jobs
       = Inr (VStr ''four'')
   \<and> loadOption example_sys \<lparr>options = [''make-jobs'' \<mapsto> make_jobs],
                      parsedArgs = Some [''make_jobs'' \<mapsto> VStr ''four''], JSON = []\<rparr> () make_jobs
       = Inl (SystemExit 3 ''make-jobs'' (VStr ''four''))
   \<and> loadOption example_sys \<lparr>options = [''make-jobs'' \<mapsto> make_jobs],
                      parsedArgs = Some [''make_jobs'' \<mapsto> VStr ''12''], JSON = []\<rparr> () make_jobs
       = Inr (VInt 12)
   \<and> convertType example_sys make_jobs (VStr [CHR 0xA0, CHR ''1'', CHR ''2'']) = Inr (VInt 12)
   \<and> convertType example_sys make_jobs (VStr [CHR 0x1C, CHR ''1'', CHR ''2''])
       = Inl (ValueError [CHR 0x1C, CHR ''1'', CHR ''2''])"
proof -
  let ?L = "\<lparr>options = [''make-jobs'' \<mapsto> make_jobs],
             parsedArgs = Some [''make_jobs'' \<mapsto> VStr ''four''], JSON = []\<rparr> :: unit loader"
  have ty: "valueType make_jobs = TInt"
    by (simp add: make_jobs_def)
  have bad: "int_of_string (int_max_str_digits example_sys) ''four'' = None"
    by (rule int_of_string_alpha[of "CHR ''f''"]) (simp_all add: is_alpha_def)
  have fatal: "fatalError_as_specified example_sys"
    by (simp add: fatalError_as_specified_def example_sys_def)
  have impl: "loadOptionImpl ?L make_jobs = Inr (VStr ''four'')"
    by (simp add: make_jobs_def loadOptionImpl_def loadFromCommandLine_def dest_def replace_char_def)
  from invalid_int_exits[OF ty bad fatal] impl obtain st where
    st: "convert_or_exit example_sys make_jobs (VStr ''four'')
           = Inl (SystemExit st (name make_jobs) (VStr ''four''))"
      "loadOption example_sys ?L () make_jobs = Inl (SystemExit st (name make_jobs) (VStr ''four''))"
    by blast
  from convert_or_exit_int_string[OF ty bad] st(1) have "st = 3"
    by (simp add: example_sys_def)
  with st(2) have exit: "loadOption example_sys ?L () make_jobs
                           = Inl (SystemExit 3 ''make-jobs'' (VStr ''four''))"
    by (simp add: make_jobs_def)
  have good: "loadOption example_sys \<lparr>options = [''make-jobs'' \<mapsto> make_jobs],
                      parsedArgs = Some [''make_jobs'' \<mapsto> VStr ''12''], JSON = []\<rparr> () make_jobs
       = Inr (VInt 12)"
    by (simp add: make_jobs_def loadOption_def loadOptionImpl_def loadFromCommandLine_def dest_def
        replace_char_def convert_or_exit_def convertType_def int_defs example_sys_def)
  have nbsp: "convertType example_sys make_jobs (VStr [CHR 0xA0, CHR ''1'', CHR ''2'']) = Inr (VInt 12)"
    by (simp add: make_jobs_def convertType_def int_defs example_sys_def)
  have fs: "convertType example_sys make_jobs (VStr [CHR 0x1C, CHR ''1'', CHR ''2''])
       = Inl (ValueError [CHR 0x1C, CHR ''1'', CHR ''2''])"
    by (simp add: make_jobs_def convertType_def int_defs example_sys_def)
  from bad fatal impl exit good nbsp fs show ?thesis by simp
qed

subsection \<open>Parsing the text of a path again\<close>

lemma split_sep_nonempty: "split_sep c xs \<noteq> []"
  by (induction xs) (auto split: list.splits)

lemma split_sep_no_sep: "c \<notin> set w \<Longrightarrow> split_sep c w = [w]"
  by (induction w) auto

lemma split_sep_append: "c \<notin> set w \<Longrightarrow> split_sep c (w @ c # rest) = w # split_sep c rest"
  by (induction w) (auto split: list.splits)

lemma split_join:
  "ws \<noteq> [] \<Longrightarrow> \<forall>w\<in>set ws. c \<notin> set w \<Longrightarrow> split_sep c (join_sep c ws) = ws"
proof (induction c ws rule: join_sep.induct)
  case (1 c)
  then show ?case by simp
next
  case (2 c w)
  then show ?case by (simp add: split_sep_no_sep)
next
  case (3 c w v va)
  then show ?case by (simp add: split_sep_append)
qed

lemma split_pieces: "\<forall>w\<in>set (split_sep c s). c \<notin> set w"
  by (induction s) (auto split: list.splits)

lemma path_components_wf: "wf_comps (path_components rel)"
  using split_pieces[of "CHR ''/''" rel]
  by (auto simp add: wf_comps_def path_components_def list_all_iff)

lemma Path_root: "fst (Path s) \<in> {[], ''/'', ''//''}"
  by (simp add: Path_def splitroot_def Let_def split: prod.splits)

lemma Path_wf: "wf_comps (snd (Path s))"
  by (simp add: Path_def path_components_wf split: prod.splits)

lemma wf_comps_append: "wf_comps (xs @ ys) \<longleftrightarrow> wf_comps xs \<and> wf_comps ys"
  by (simp add: wf_comps_def)

lemma path_absolute_wf:
  assumes "is_absolute (Path cwd)"
  shows "wf_comps (snd (path_absolute cwd (Path s)))
         \<and> fst (path_absolute cwd (Path s)) \<in> {''/'', ''//''}"
  using assms Path_root[of s] Path_root[of cwd] Path_wf[of s] Path_wf[of cwd]
  by (auto simp add: path_absolute_def is_absolute_def wf_comps_append)

lemma join_sep_hd:
  "wf_comps comps \<Longrightarrow> join_sep (CHR ''/'') comps = [] \<or> hd (join_sep (CHR ''/'') comps) \<noteq> CHR ''/''"
proof (induction "CHR ''/''" comps rule: join_sep.induct)
  case 1
  then show ?case by simp
next
  case (2 w)
  then show ?case by (cases w) (auto simp add: wf_comps_def)
next
  case (3 w v va)
  then show ?case by (cases w) (auto simp add: wf_comps_def)
qed

lemma dropWhile_no_slash:
  "j = [] \<or> hd j \<noteq> CHR ''/'' \<Longrightarrow> dropWhile (\<lambda>c. c = CHR ''/'') j = j"
  by (cases j) auto

lemma path_components_join:
  assumes "wf_comps comps"
  shows "path_components (join_sep (CHR ''/'') comps) = comps"
proof (cases "comps = []")
  case True
  then show ?thesis by (simp add: path_components_def)
next
  case False
  with assms have "split_sep (CHR ''/'') (join_sep (CHR ''/'') comps) = comps"
    by (intro split_join) (auto simp add: wf_comps_def list_all_iff)
  moreover from assms have "filter (\<lambda>x. x \<noteq> [] \<and> x \<noteq> ''.'') comps = comps"
    by (auto simp add: wf_comps_def list_all_iff filter_id_conv)
  ultimately show ?thesis by (simp add: path_components_def)
qed

lemma Path_path_str:
  assumes "wf_comps comps" and "root \<in> {''/'', ''//''}"
  shows "Path (path_str (root, comps)) = (root, comps)"
proof -
  let ?j = "join_sep (CHR ''/'') comps"
  from assms(1) have j: "?j = [] \<or> hd ?j \<noteq> CHR ''/''" by (rule join_sep_hd)
  from assms(2) have str: "path_str (root, comps) = root @ ?j"
    by (auto simp add: path_str_def)
  from assms(2) have "splitroot (root @ ?j) = (root, ?j)"
    by (auto simp add: splitroot_def dropWhile_no_slash[OF j] Let_def)
  with str show ?thesis
    by (simp add: Path_def path_components_join[OF assms(1)])
qed

lemma expanduser_absolute: "root \<in> {''/'', ''//''} \<Longrightarrow> expanduser S (root @ j) = root @ j"
  by (auto simp add: expanduser_def)

lemma expandvars_no_dollar: "CHR ''$'' \<notin> set s \<Longrightarrow> expandvars env s = s"
  by (induction s) auto

subsection \<open>Coercing a coerced value again\<close>

lemma sequence_err_Inr:
  "sequence_err (map f xs) = Inr vs \<Longrightarrow> \<forall>v\<in>set vs. \<exists>x\<in>set xs. f x = Inr v"
proof (induction xs arbitrary: vs)
  case Nil
  then show ?case by simp
next
  case (Cons x xs)
  then show ?case by (auto split: sum.splits)
qed

lemma sequence_err_fixed:
  "\<forall>v\<in>set vs. f v = Inr v \<Longrightarrow> sequence_err (map f vs) = Inr vs"
  by (induction vs) auto

lemma enum_call_idem:
  "enum_call cls members x = Inr v \<Longrightarrow> enum_call cls members v = Inr v"
proof (induction cls members x arbitrary: v rule: enum_call.induct)
  case (1 cls members xs)
  from "1.prems" obtain vs where vs: "sequence_err (map (enum_call cls members) xs) = Inr vs"
    and v: "v = VList vs"
    by (auto split: sum.splits)
  have "\<forall>w\<in>set vs. enum_call cls members w = Inr w"
  proof
    fix w assume "w \<in> set vs"
    with sequence_err_Inr[OF vs] obtain x where "x \<in> set xs" "enum_call cls members x = Inr w"
      by blast
    then show "enum_call cls members w = Inr w" by (rule "1.IH")
  qed
  then have "sequence_err (map (enum_call cls members) vs) = Inr vs"
    by (rule sequence_err_fixed)
  with v show ?case by simp
qed (auto simp add: enum_call1_def Let_def split: if_splits)

lemma enum_call_result:
  "enum_call cls members x = Inr v \<Longrightarrow> v \<noteq> VNone \<and> (\<forall>s. v \<noteq> VStr s)"
  by (cases x) (auto simp add: enum_call1_def Let_def split: if_splits sum.splits)

lemma convert_path_again:
  assumes cwd: "is_absolute (Path (getcwd S))"
    and ty: "valueType opt = TPath"
    and p: "p = path_absolute (getcwd S) (Path s)"
    and stable: "expandvars (environ S) (path_str p) = path_str p"
  shows "convertType S opt (VPath p) = Inr (VPath p)"
proof -
  from path_absolute_wf[OF cwd, of s] p
  have wf: "wf_comps (snd p)" and root: "fst p \<in> {''/'', ''//''}"
    by simp_all
  from root have str: "path_str p = fst p @ join_sep (CHR ''/'') (snd p)"
    by (auto simp add: path_str_def)
  have user: "expanduser S (path_str p) = path_str p"
    unfolding str using root by (rule expanduser_absolute)
  have parse: "Path (path_str p) = p"
    using Path_path_str[OF wf root] by simp
  from root have "is_absolute p" by (auto simp add: is_absolute_def)
  then have "path_absolute (getcwd S) p = p" by (simp add: path_absolute_def)
  with ty stable user parse show ?thesis
    by (simp add: convertType_def py_str_def)
qed


lemmas path_defs = Path_def splitroot_def path_components_def path_absolute_def is_absolute_def
  path_str_def expanduser_def rstrip_slash_def match_var_def is_word_char_def is_alpha_def is_digit_def

text \<open>
  A path option expands the variables of its value on every call. With \<^verbatim>\<open>A=$B\<close> and
  \<^verbatim>\<open>B=/b\<close> in the environment, \<^verbatim>\<open>/x/$A\<close> is coerced to the path \<^verbatim>\<open>/x/$B\<close>, and coercing that
  path gives \<^verbatim>\<open>/x/b\<close>, another path.
\<close>

theorem path_coercion_counterexample:
  "convertType example_sys qtbase_build_directory (VStr ''/x/$A'') = Inr (VPath (''/'', [''x'', ''$B'']))
   \<and> convertType example_sys qtbase_build_directory (VPath (''/'', [''x'', ''$B'']))
       = Inr (VPath (''/'', [''x'', ''b'']))
   \<and> VPath (''/'', [''x'', ''b'']) \<noteq> VPath (''/'', [''x'', ''$B''])"
  by (simp add: qtbase_build_directory_def example_sys_def convertType_def py_str_def path_defs)

text \<open>
  Claim C8, as the code has it. A value that a successful coercion returned is returned
  unchanged by a second coercion, for the types string, bool, int, enum and list and for
  \<^verbatim>\<open>None\<close>; for the type path this holds when the working directory is absolute and
  expanding the variables of the environment leaves the text of the coerced path as it is,
  as it does for a text without a dollar sign (\<open>expandvars_no_dollar\<close>).
\<close>

theorem coercion_idempotent:
  assumes "convertType S opt raw = Inr v"
    and "valueType opt = TPath \<longrightarrow>
           is_absolute (Path (getcwd S)) \<and>
           (\<forall>p. v = VPath p \<longrightarrow> expandvars (environ S) (path_str p) = path_str p)"
  shows "convertType S opt v = Inr v"
proof (cases "raw = VNone")
  case True
  with assms(1) show ?thesis by (simp add: convertType_def)
next
  case False
  define r where "r = (case raw of
                 VStr stringValue \<Rightarrow>
                   (if valueType opt = TList
                    then (case shlex_split S stringValue of
                            None \<Rightarrow> Inl (ValueError stringValue)
                          | Some ws \<Rightarrow> Inr (VList (map VStr ws)))
                    else Inr raw)
               | _ \<Rightarrow> Inr raw)"
  from assms(1) False obtain x where x: "r = Inr x"
    by (cases r) (auto simp add: convertType_def r_def)
  from assms(1) False x have call:
    "(case valueType opt of
        TPath \<Rightarrow>
          (let expanded = expanduser S (expandvars (environ S) (py_str S x))
           in Inr (VPath (path_absolute (getcwd S) (Path expanded))))
      | TStr \<Rightarrow> Inr (VStr (py_str S x))
      | TBool \<Rightarrow> Inr (VBool (py_bool x))
      | TInt \<Rightarrow> py_int S x
      | TList \<Rightarrow> py_list x
      | TEnum cls members \<Rightarrow> enum_call cls members x) = Inr v"
    by (simp add: convertType_def r_def)
  show ?thesis
  proof (cases "valueType opt")
    case TStr
    with call show ?thesis by (auto simp add: convertType_def py_str_def)
  next
    case TBool
    with call show ?thesis by (auto simp add: convertType_def py_bool_def)
  next
    case TInt
    with call show ?thesis
      by (cases x) (auto simp add: convertType_def py_int_def split: option.splits)
  next
    case TPath
    with call obtain s where p: "v = VPath (path_absolute (getcwd S) (Path s))"
      by (auto simp add: Let_def)
    with TPath assms(2) show ?thesis
      using convert_path_again[of S opt "path_absolute (getcwd S) (Path s)" s] by simp
  next
    case TList
    with call show ?thesis
      by (cases x) (auto simp add: convertType_def py_list_def)
  next
    case (TEnum cls members)
    with call have e: "enum_call cls members x = Inr v" by simp
    from enum_call_result[OF e] enum_call_idem[OF e] TEnum show ?thesis
      by (cases v) (auto simp add: convertType_def)
  qed
qed

text \<open>\<^verbatim>\<open>~/build\<close> becomes \<^verbatim>\<open>/home/user/build\<close> and stays; \<^verbatim>\<open>"12"\<close> becomes 12 and stays.\<close>

theorem coercion_idempotent_witness:
  "convertType example_sys qtbase_build_directory (VStr ''~/build'')
     = Inr (VPath (''/'', [''home'', ''user'', ''build'']))
   \<and> is_absolute (Path (getcwd example_sys))
   \<and> expandvars (environ example_sys) (path_str (''/'', [''home'', ''user'', ''build'']))
       = path_str (''/'', [''home'', ''user'', ''build''])
   \<and> convertType example_sys qtbase_build_directory (VPath (''/'', [''home'', ''user'', ''build'']))
       = Inr (VPath (''/'', [''home'', ''user'', ''build'']))
   \<and> convertType example_sys make_jobs (VStr ''12'') = Inr (VInt 12)
   \<and> convertType example_sys make_jobs (VInt 12) = Inr (VInt 12)"
proof -
  let ?v = "VPath (''/'', [''home'', ''user'', ''build''])"
  have first: "convertType example_sys qtbase_build_directory (VStr ''~/build'') = Inr ?v"
    by (simp add: qtbase_build_directory_def example_sys_def convertType_def py_str_def path_defs)
  have cwd: "is_absolute (Path (getcwd example_sys))"
    by (simp add: example_sys_def path_defs)
  have stable: "expandvars (environ example_sys) (path_str (''/'', [''home'', ''user'', ''build'']))
       = path_str (''/'', [''home'', ''user'', ''build''])"
    by (simp add: path_str_def)
  from cwd stable
  have hyp: "valueType qtbase_build_directory = TPath \<longrightarrow>
           is_absolute (Path (getcwd example_sys)) \<and>
           (\<forall>p. ?v = VPath p \<longrightarrow> expandvars (environ example_sys) (path_str p) = path_str p)"
    by simp
  have again: "convertType example_sys qtbase_build_directory ?v = Inr ?v"
    using first hyp by (rule coercion_idempotent)
  have n: "convertType example_sys make_jobs (VStr ''12'') = Inr (VInt 12)"
    by (simp add: make_jobs_def convertType_def int_defs example_sys_def)
  have ty: "valueType make_jobs = TPath \<longrightarrow>
           is_absolute (Path (getcwd example_sys)) \<and>
           (\<forall>p. VInt 12 = VPath p \<longrightarrow> expandvars (environ example_sys) (path_str p) = path_str p)"
    by (simp add: make_jobs_def)
  have n2: "convertType example_sys make_jobs (VInt 12) = Inr (VInt 12)"
    using n ty by (rule coercion_idempotent)
  from first cwd stable again n n2 show ?thesis by simp
qed

end
